theory Spec2Isabelle
  imports Main
begin

section \<open>JavaScript values\<close>

text \<open>
  Numbers are modelled by their integer values together with the three special values the
  arithmetic of the program can produce. \<open>Fin n\<close> stands for the Number whose value is
  the integer \<open>n\<close>. Every integer with \<open>|n| < 2^53\<close> is such a value; a larger one is when
  it fits the 53 bits of a double.
\<close>

datatype jsnum = Fin int | NaN | PosInf | NegInf

text \<open>
  The values that reach the query builder as field values and bound parameters are the
  scalar values of the driver interface. A string is given by the bytes of its UTF-8
  encoding.
\<close>

datatype jsval = JNull | JUndefined | JBool bool | JNum jsnum | JStr string

text \<open>ToBoolean: the conversion behind \<open>if (value)\<close> and \<open>a || b\<close>.\<close>

fun truthy :: "jsval \<Rightarrow> bool" where
  "truthy JNull = False"
| "truthy JUndefined = False"
| "truthy (JBool b) = b"
| "truthy (JNum (Fin n)) = (n \<noteq> 0)"
| "truthy (JNum NaN) = False"
| "truthy (JNum PosInf) = True"
| "truthy (JNum NegInf) = True"
| "truthy (JStr s) = (s \<noteq> [])"

subsection \<open>From an integer to the nearest Number\<close>

text \<open>
  The Number value of a mathematical integer: itself below \<open>2^53\<close>; otherwise the integer
  is rounded to 53 significant bits, a tie going to the even neighbour, and a result of
  \<open>2^1024\<close> or more is Infinity.
\<close>

fun bit_length :: "nat \<Rightarrow> nat" where
  "bit_length n = (if n = 0 then 0 else Suc (bit_length (n div 2)))"

declare bit_length.simps [simp del]

definition to_number :: "nat \<Rightarrow> jsnum" where
  "to_number v =
     (if v < 2 ^ 53 then Fin (int v)
      else (let k = bit_length v - 53;
                q = v div 2 ^ k;
                r = v mod 2 ^ k;
                h = 2 ^ (k - 1);
                m = (if h < r \<or> (r = h \<and> odd q) then q + 1 else q)
            in if 2 ^ 1024 \<le> m * 2 ^ k then PosInf else Fin (int (m * 2 ^ k))))"

fun js_negate :: "jsnum \<Rightarrow> jsnum" where
  "js_negate (Fin n) = Fin (- n)"
| "js_negate NaN = NaN"
| "js_negate PosInf = NegInf"
| "js_negate NegInf = PosInf"

subsection \<open>Number to string\<close>

definition digit_char :: "nat \<Rightarrow> char" where
  "digit_char d = ''0123456789'' ! d"

fun show_nat :: "nat \<Rightarrow> string" where
  "show_nat n = (if n < 10 then [digit_char n] else show_nat (n div 10) @ [digit_char (n mod 10)])"

declare show_nat.simps [simp del]

definition show_int :: "int \<Rightarrow> string" where
  "show_int i = (if i < 0 then CHR ''-'' # show_nat (nat (- i)) else show_nat (nat i))"

text \<open>
  From \<open>2^53\<close> on, the digits of a Number are the shortest decimal \<open>s\<close> for which
  \<open>s * 10^p\<close> is read back as the same Number. \<open>shortest_digits x p\<close> tries the scales
  from \<open>10^p\<close> down: at each scale the candidates are the multiples just below and just
  above \<open>x\<close>; of two that both read back as \<open>x\<close> the closer one is taken, and the even one
  when they are equally close.
\<close>

fun shortest_digits :: "nat \<Rightarrow> nat \<Rightarrow> nat \<times> nat" where
  "shortest_digits x 0 = (x, 0)"
| "shortest_digits x (Suc p) =
     (let lo = x div 10 ^ Suc p;
          hi = lo + 1;
          ok_lo = (to_number (lo * 10 ^ Suc p) = Fin (int x));
          ok_hi = (to_number (hi * 10 ^ Suc p) = Fin (int x))
      in if ok_lo \<and> ok_hi
         then (if x - lo * 10 ^ Suc p < hi * 10 ^ Suc p - x then (lo, Suc p)
               else if hi * 10 ^ Suc p - x < x - lo * 10 ^ Suc p then (hi, Suc p)
               else if even lo then (lo, Suc p) else (hi, Suc p))
         else if ok_lo then (lo, Suc p)
         else if ok_hi then (hi, Suc p)
         else shortest_digits x p)"

text \<open>
  The search starts at one digit. A candidate \<open>10 * 10^p\<close> is written \<open>1 * 10^(p+1)\<close>.
  Up to 21 digits the number is written out, the digits followed by zeros; beyond, in
  exponent form.
\<close>

definition show_large :: "nat \<Rightarrow> string" where
  "show_large x =
     (case shortest_digits x (length (show_nat x) - 1) of
        (s0, p0) \<Rightarrow>
          (let s = (if s0 mod 10 = 0 then s0 div 10 else s0);
               p = (if s0 mod 10 = 0 then Suc p0 else p0);
               ds = show_nat s;
               n = length ds + p
           in if n \<le> 21 then ds @ replicate p CHR ''0''
              else (if tl ds = [] then ds else hd ds # CHR ''.'' # tl ds) @ ''e+'' @ show_nat (n - 1)))"

fun num_to_string :: "jsnum \<Rightarrow> string" where
  "num_to_string (Fin n) =
     (if \<bar>n\<bar> < 2 ^ 53 then show_int n
      else if n < 0 then CHR ''-'' # show_large (nat (- n))
      else show_large (nat n))"
| "num_to_string NaN = ''NaN''"
| "num_to_string PosInf = ''Infinity''"
| "num_to_string NegInf = ''-Infinity''"

text \<open>ToString: the conversion of a template literal \<open>`${v}`\<close> and of \<open>parseInt\<close>'s argument.\<close>

fun to_string :: "jsval \<Rightarrow> string" where
  "to_string JNull = ''null''"
| "to_string JUndefined = ''undefined''"
| "to_string (JBool b) = (if b then ''true'' else ''false'')"
| "to_string (JNum x) = num_to_string x"
| "to_string (JStr s) = s"

subsection \<open>parseInt\<close>

text \<open>
  \<open>parseInt(v)\<close> with no radix: the argument is converted to a string, leading white space
  is skipped, an optional sign is read, a \<open>0x\<close>/\<open>0X\<close> prefix selects radix 16, and the
  longest prefix of digits is read as an integer, whose Number value is the result; with
  no digit the result is NaN.

  White space is the tab, the line feed, the vertical tab, the form feed, the carriage
  return, the space, and beyond ASCII the code points U+00A0, U+1680, U+2000 to U+200A,
  U+2028, U+2029, U+202F, U+205F, U+3000 and U+FEFF, here in UTF-8. \<open>space_len s\<close> is the
  number of bytes of the white space character \<open>s\<close> starts with, 0 when it starts with
  none.
\<close>

definition wide_spaces :: "string list" where
  "wide_spaces =
     [[CHR 0xE1, CHR 0x9A, CHR 0x80],
      [CHR 0xE2, CHR 0x80, CHR 0x80], [CHR 0xE2, CHR 0x80, CHR 0x81], [CHR 0xE2, CHR 0x80, CHR 0x82],
      [CHR 0xE2, CHR 0x80, CHR 0x83], [CHR 0xE2, CHR 0x80, CHR 0x84], [CHR 0xE2, CHR 0x80, CHR 0x85],
      [CHR 0xE2, CHR 0x80, CHR 0x86], [CHR 0xE2, CHR 0x80, CHR 0x87], [CHR 0xE2, CHR 0x80, CHR 0x88],
      [CHR 0xE2, CHR 0x80, CHR 0x89], [CHR 0xE2, CHR 0x80, CHR 0x8A],
      [CHR 0xE2, CHR 0x80, CHR 0xA8], [CHR 0xE2, CHR 0x80, CHR 0xA9], [CHR 0xE2, CHR 0x80, CHR 0xAF],
      [CHR 0xE2, CHR 0x81, CHR 0x9F],
      [CHR 0xE3, CHR 0x80, CHR 0x80],
      [CHR 0xEF, CHR 0xBB, CHR 0xBF]]"

definition space_len :: "string \<Rightarrow> nat" where
  "space_len s =
     (if take 1 s \<in> set [[CHR 0x09], [CHR 0x0A], [CHR 0x0B], [CHR 0x0C], [CHR 0x0D], [CHR 0x20]] then 1
      else if take 2 s = [CHR 0xC2, CHR 0xA0] then 2
      else if take 3 s \<in> set wide_spaces then 3
      else 0)"

fun skip_space :: "string \<Rightarrow> string" where
  "skip_space [] = []"
| "skip_space (c # cs) =
     (if space_len (c # cs) = 0 then c # cs
      else skip_space (drop (space_len (c # cs) - 1) cs))"

definition digit_val :: "nat \<Rightarrow> char \<Rightarrow> nat option" where
  "digit_val radix c =
     (let k = (of_char c :: nat);
          v = (if 48 \<le> k \<and> k \<le> 57 then Some (k - 48)
               else if 97 \<le> k \<and> k \<le> 122 then Some (k - 87)
               else if 65 \<le> k \<and> k \<le> 90 then Some (k - 55)
               else None)
      in case v of None \<Rightarrow> None | Some d \<Rightarrow> if d < radix then Some d else None)"

fun parse_digits :: "nat \<Rightarrow> nat option \<Rightarrow> string \<Rightarrow> nat option" where
  "parse_digits radix acc [] = acc"
| "parse_digits radix acc (c # cs) =
     (case digit_val radix c of
        None \<Rightarrow> acc
      | Some d \<Rightarrow> parse_digits radix (Some ((case acc of None \<Rightarrow> 0 | Some a \<Rightarrow> a) * radix + d)) cs)"

text \<open>The string after the white space and the optional sign.\<close>

definition unsigned_part :: "string \<Rightarrow> string" where
  "unsigned_part s =
     (let s1 = skip_space s
      in case s1 of c # cs \<Rightarrow> if c = CHR ''-'' \<or> c = CHR ''+'' then cs else s1 | [] \<Rightarrow> s1)"

definition parseInt_str :: "string \<Rightarrow> jsnum" where
  "parseInt_str s =
     (let s1 = skip_space s;
          neg = (case s1 of c # _ \<Rightarrow> c = CHR ''-'' | [] \<Rightarrow> False);
          s2 = unsigned_part s;
          hex = (take 2 s2 = ''0x'' \<or> take 2 s2 = ''0X'');
          r = (if hex then parse_digits 16 None (drop 2 s2) else parse_digits 10 None s2)
      in case r of None \<Rightarrow> NaN
         | Some v \<Rightarrow> if neg then js_negate (to_number v) else to_number v)"

definition parseInt :: "jsval \<Rightarrow> jsnum" where
  "parseInt v = parseInt_str (to_string v)"

text \<open>
  A string is numeric for \<open>parseInt\<close> when, after the white space and the optional sign,
  it goes on with a decimal digit, or with \<open>0x\<close> or \<open>0X\<close> and a hexadecimal digit.
\<close>

definition numeric :: "string \<Rightarrow> bool" where
  "numeric s =
     (let s2 = unsigned_part s
      in if take 2 s2 = ''0x'' \<or> take 2 s2 = ''0X''
         then (case drop 2 s2 of [] \<Rightarrow> False | d # _ \<Rightarrow> digit_val 16 d \<noteq> None)
         else (case s2 of [] \<Rightarrow> False | d # _ \<Rightarrow> digit_val 10 d \<noteq> None))"

subsection \<open>Array.prototype.join on strings\<close>

fun join :: "string \<Rightarrow> string list \<Rightarrow> string" where
  "join sep [] = []"
| "join sep [x] = x"
| "join sep (x # y # ys) = x @ sep @ join sep (y # ys)"

section \<open>The statement model\<close>

record join_spec =
  j_type :: string
  j_table :: string
  j_condition :: string

text \<open>The object \<open>this.query\<close> of a builder; \<open>null\<close> is \<open>None\<close>.\<close>

record query =
  q_select :: "string list"
  q_distinct :: bool
  q_where :: "string list"
  q_having :: "string list"
  q_joins :: "join_spec list"
  q_orderBy :: "string list"
  q_groupBy :: "string list"
  q_limit :: "jsnum option"
  q_offset :: "jsnum option"
  q_params :: "jsval list"
  q_alias :: "string option"
  q_lock :: "string option"

text \<open>
  A \<open>QueryBuilder\<close> instance: its table and its statement. The connection is passed to the
  terminal calls explicitly.
\<close>

record query_builder =
  b_table :: string
  b_query :: query

datatype error =
    NotInitialized
  | TypeError string
  | DriverError string

definition empty_query :: query where
  "empty_query =
     \<lparr> q_select = [''*''], q_distinct = False, q_where = [], q_having = [], q_joins = [],
       q_orderBy = [], q_groupBy = [], q_limit = None, q_offset = None, q_params = [],
       q_alias = None, q_lock = None \<rparr>"

definition reset :: "query_builder \<Rightarrow> query_builder" where
  "reset b = b\<lparr>b_query := empty_query\<rparr>"

text \<open>The constructor.\<close>

definition new_builder :: "string \<Rightarrow> query_builder" where
  "new_builder t = reset \<lparr> b_table = t, b_query = empty_query \<rparr>"

section \<open>Clause builders\<close>

text \<open>
  The argument of \<open>select\<close>: an array of names; a string; none or \<open>undefined\<close>, for which
  the default \<open>'*'\<close> stands in; or anything else.
\<close>

datatype sel_arg = SelArray "string list" | SelString string | SelUndefined | SelOther

fun select :: "sel_arg \<Rightarrow> query_builder \<Rightarrow> query_builder" where
  "select (SelArray fs) b = b\<lparr>b_query := (b_query b)\<lparr>q_select := fs\<rparr>\<rparr>"
| "select (SelString fs) b = b\<lparr>b_query := (b_query b)\<lparr>q_select := [fs]\<rparr>\<rparr>"
| "select SelUndefined b = b\<lparr>b_query := (b_query b)\<lparr>q_select := [''*'']\<rparr>\<rparr>"
| "select SelOther b = b"

text \<open>
  The first argument of \<open>where\<close>: an object, given by its \<open>Object.entries\<close>; a string; \<open>null\<close>
  (whose \<open>typeof\<close> is \<open>'object'\<close>, and on which \<open>Object.entries\<close> throws); or anything else.
\<close>

datatype cond = CObject "(string \<times> jsval) list" | CString string | CNull | COther

definition where_entry :: "query \<Rightarrow> string \<times> jsval \<Rightarrow> query" where
  "where_entry q kv =
     (case kv of (key, val) \<Rightarrow>
        if val = JNull \<or> val = JUndefined
        then q\<lparr>q_where := q_where q @ [key @ '' IS NULL'']\<rparr>
        else q\<lparr>q_where := q_where q @ [key @ '' = ?''], q_params := q_params q @ [val]\<rparr>)"

fun where_b :: "cond \<Rightarrow> jsval \<Rightarrow> query_builder \<Rightarrow> error + query_builder" where
  "where_b (CObject entries) v b = Inr (b\<lparr>b_query := foldl where_entry (b_query b) entries\<rparr>)"
| "where_b CNull v b = Inl (TypeError ''Cannot convert undefined or null to object'')"
| "where_b (CString condition) v b =
     Inr (if v = JNull \<or> v = JUndefined
          then b\<lparr>b_query := (b_query b)\<lparr>q_where := q_where (b_query b) @ [condition @ '' IS NULL'']\<rparr>\<rparr>
          else b\<lparr>b_query := (b_query b)\<lparr>q_where := q_where (b_query b) @ [condition @ '' = ?''],
                                         q_params := q_params (b_query b) @ [v]\<rparr>\<rparr>)"
| "where_b COther v b = Inr b"

definition orWhere :: "cond \<Rightarrow> jsval \<Rightarrow> query_builder \<Rightarrow> error + query_builder" where
  "orWhere condition v b = where_b condition v b"

definition whereRaw :: "string \<Rightarrow> jsval list \<Rightarrow> query_builder \<Rightarrow> query_builder" where
  "whereRaw condition ps b =
     b\<lparr>b_query := (b_query b)\<lparr>q_where := q_where (b_query b) @ [condition],
                               q_params := q_params (b_query b) @ ps\<rparr>\<rparr>"

text \<open>The list argument of \<open>whereIn\<close>/\<open>whereNotIn\<close>: \<open>None\<close> is \<open>null\<close> or \<open>undefined\<close>.\<close>

definition whereIn :: "string \<Rightarrow> jsval list option \<Rightarrow> query_builder \<Rightarrow> query_builder" where
  "whereIn field vs b =
     (case vs of
        None \<Rightarrow> b
      | Some values \<Rightarrow>
          if length values > 0
          then (let placeholders = join '','' (map (\<lambda>_. ''?'') values)
                in b\<lparr>b_query := (b_query b)\<lparr>q_where := q_where (b_query b) @ [field @ '' IN ('' @ placeholders @ '')''],
                                             q_params := q_params (b_query b) @ values\<rparr>\<rparr>)
          else b)"

definition whereNotIn :: "string \<Rightarrow> jsval list option \<Rightarrow> query_builder \<Rightarrow> query_builder" where
  "whereNotIn field vs b =
     (case vs of
        None \<Rightarrow> b
      | Some values \<Rightarrow>
          if length values > 0
          then (let placeholders = join '','' (map (\<lambda>_. ''?'') values)
                in b\<lparr>b_query := (b_query b)\<lparr>q_where := q_where (b_query b) @ [field @ '' NOT IN ('' @ placeholders @ '')''],
                                             q_params := q_params (b_query b) @ values\<rparr>\<rparr>)
          else b)"

definition whereBetween :: "string \<Rightarrow> jsval \<Rightarrow> jsval \<Rightarrow> query_builder \<Rightarrow> query_builder" where
  "whereBetween field from to b =
     (if from \<noteq> JUndefined \<and> to \<noteq> JUndefined
      then b\<lparr>b_query := (b_query b)\<lparr>q_where := q_where (b_query b) @ [field @ '' BETWEEN ? AND ?''],
                                     q_params := q_params (b_query b) @ [from, to]\<rparr>\<rparr>
      else b)"

definition whereLike :: "string \<Rightarrow> jsval \<Rightarrow> query_builder \<Rightarrow> query_builder" where
  "whereLike field v b =
     (if truthy v
      then b\<lparr>b_query := (b_query b)\<lparr>q_where := q_where (b_query b) @ [field @ '' LIKE ?''],
                                     q_params := q_params (b_query b) @ [JStr (''%'' @ to_string v @ ''%'')]\<rparr>\<rparr>
      else b)"

definition whereNull :: "string \<Rightarrow> query_builder \<Rightarrow> query_builder" where
  "whereNull field b = b\<lparr>b_query := (b_query b)\<lparr>q_where := q_where (b_query b) @ [field @ '' IS NULL'']\<rparr>\<rparr>"

definition whereNotNull :: "string \<Rightarrow> query_builder \<Rightarrow> query_builder" where
  "whereNotNull field b = b\<lparr>b_query := (b_query b)\<lparr>q_where := q_where (b_query b) @ [field @ '' IS NOT NULL'']\<rparr>\<rparr>"

text \<open>\<open>toUpperCase\<close> on the ASCII letters.\<close>

definition upper_char :: "char \<Rightarrow> char" where
  "upper_char c = (let k = (of_char c :: nat) in if 97 \<le> k \<and> k \<le> 122 then char_of (k - 32) else c)"

definition toUpperCase :: "string \<Rightarrow> string" where
  "toUpperCase s = map upper_char s"

definition orderBy :: "string \<Rightarrow> string \<Rightarrow> query_builder \<Rightarrow> query_builder" where
  "orderBy field direction b =
     (let dir = (if toUpperCase direction = ''DESC'' then ''DESC'' else ''ASC'')
      in b\<lparr>b_query := (b_query b)\<lparr>q_orderBy := q_orderBy (b_query b) @ [field @ '' '' @ dir]\<rparr>\<rparr>)"

datatype group_arg = GroupArray "string list" | GroupOne string

fun groupBy :: "group_arg \<Rightarrow> query_builder \<Rightarrow> query_builder" where
  "groupBy (GroupArray fs) b = b\<lparr>b_query := (b_query b)\<lparr>q_groupBy := q_groupBy (b_query b) @ fs\<rparr>\<rparr>"
| "groupBy (GroupOne fs) b = b\<lparr>b_query := (b_query b)\<lparr>q_groupBy := q_groupBy (b_query b) @ [fs]\<rparr>\<rparr>"

definition limit :: "jsval \<Rightarrow> query_builder \<Rightarrow> query_builder" where
  "limit num b = b\<lparr>b_query := (b_query b)\<lparr>q_limit := Some (parseInt num)\<rparr>\<rparr>"

definition offset :: "jsval \<Rightarrow> query_builder \<Rightarrow> query_builder" where
  "offset num b = b\<lparr>b_query := (b_query b)\<lparr>q_offset := Some (parseInt num)\<rparr>\<rparr>"

definition join_b :: "string \<Rightarrow> string \<Rightarrow> string \<Rightarrow> query_builder \<Rightarrow> query_builder" where
  "join_b tbl condition type b =
     b\<lparr>b_query := (b_query b)\<lparr>q_joins := q_joins (b_query b) @
        [\<lparr> j_type = type, j_table = tbl, j_condition = condition \<rparr>]\<rparr>\<rparr>"

definition leftJoin :: "string \<Rightarrow> string \<Rightarrow> query_builder \<Rightarrow> query_builder" where
  "leftJoin tbl condition b = join_b tbl condition ''LEFT'' b"

definition innerJoin :: "string \<Rightarrow> string \<Rightarrow> query_builder \<Rightarrow> query_builder" where
  "innerJoin tbl condition b = join_b tbl condition ''INNER'' b"

section \<open>Rendering\<close>

definition buildWhere :: "query_builder \<Rightarrow> string" where
  "buildWhere b =
     (if length (q_where (b_query b)) = 0 then ''''
      else ''WHERE '' @ join '' AND '' (q_where (b_query b)))"

definition buildJoins :: "query_builder \<Rightarrow> string" where
  "buildJoins b =
     (if length (q_joins (b_query b)) = 0 then ''''
      else join '' '' (map (\<lambda>j. j_type j @ '' JOIN '' @ j_table j @ '' ON '' @ j_condition j)
                          (q_joins (b_query b))))"

definition build :: "query_builder \<Rightarrow> string \<times> jsval list" where
  "build b =
     (let q = b_query b;
          sql = ''SELECT '';
          sql = (if q_distinct q then sql @ ''DISTINCT '' else sql);
          sql = sql @ join '', '' (q_select q);
          sql = sql @ '' FROM '' @ b_table b;
          joinsClause = buildJoins b;
          sql = (if joinsClause \<noteq> [] then sql @ '' '' @ joinsClause else sql);
          whereClause = buildWhere b;
          sql = (if whereClause \<noteq> [] then sql @ '' '' @ whereClause else sql);
          sql = (if length (q_groupBy q) > 0 then sql @ '' GROUP BY '' @ join '', '' (q_groupBy q) else sql);
          sql = (if length (q_orderBy q) > 0 then sql @ '' ORDER BY '' @ join '', '' (q_orderBy q) else sql);
          sql = (case q_limit q of
                   None \<Rightarrow> sql
                 | Some l \<Rightarrow>
                     (let sql = sql @ '' LIMIT '' @ num_to_string l
                      in case q_offset q of
                           None \<Rightarrow> sql
                         | Some off \<Rightarrow> sql @ '' OFFSET '' @ num_to_string off));
          sql = (case q_lock q of
                   None \<Rightarrow> sql
                 | Some l \<Rightarrow> if l \<noteq> [] then sql @ '' '' @ l else sql)
      in (sql, q_params q))"


section \<open>Chains of clause-builder calls\<close>

datatype builder_call =
    Select sel_arg
  | Where cond jsval
  | OrWhere cond jsval
  | WhereRaw string "jsval list"
  | WhereIn string "jsval list option"
  | WhereNotIn string "jsval list option"
  | WhereBetween string jsval jsval
  | WhereLike string jsval
  | WhereNull string
  | WhereNotNull string
  | OrderBy string string
  | GroupBy group_arg
  | Limit jsval
  | Offset jsval
  | Join string string string
  | LeftJoin string string
  | InnerJoin string string

fun call :: "builder_call \<Rightarrow> query_builder \<Rightarrow> error + query_builder" where
  "call (Select a) b = Inr (select a b)"
| "call (Where c v) b = where_b c v b"
| "call (OrWhere c v) b = orWhere c v b"
| "call (WhereRaw c ps) b = Inr (whereRaw c ps b)"
| "call (WhereIn f vs) b = Inr (whereIn f vs b)"
| "call (WhereNotIn f vs) b = Inr (whereNotIn f vs b)"
| "call (WhereBetween f x y) b = Inr (whereBetween f x y b)"
| "call (WhereLike f v) b = Inr (whereLike f v b)"
| "call (WhereNull f) b = Inr (whereNull f b)"
| "call (WhereNotNull f) b = Inr (whereNotNull f b)"
| "call (OrderBy f d) b = Inr (orderBy f d b)"
| "call (GroupBy g) b = Inr (groupBy g b)"
| "call (Limit n) b = Inr (limit n b)"
| "call (Offset n) b = Inr (offset n b)"
| "call (Join t c ty) b = Inr (join_b t c ty b)"
| "call (LeftJoin t c) b = Inr (leftJoin t c b)"
| "call (InnerJoin t c) b = Inr (innerJoin t c b)"

text \<open>A chain \<open>b.c1(...).c2(...)...\<close>, left to right; a call that throws ends it.\<close>

fun chain :: "builder_call list \<Rightarrow> query_builder \<Rightarrow> error + query_builder" where
  "chain [] b = Inr b"
| "chain (c # cs) b = (case call c b of Inl e \<Rightarrow> Inl e | Inr b' \<Rightarrow> chain cs b')"

text \<open>The number of \<open>?\<close> placeholders of a text.\<close>

definition placeholders :: "string \<Rightarrow> nat" where
  "placeholders s = length (filter (\<lambda>c. c = CHR ''?'') s)"

text \<open>
  The conditions under which a call keeps placeholders and parameters aligned: the names
  it is given contain no \<open>?\<close>, and a raw predicate comes with as many parameters as its
  text has placeholders.
\<close>

definition plain :: "string \<Rightarrow> bool" where
  "plain s = (placeholders s = 0)"

fun plain_call :: "builder_call \<Rightarrow> bool" where
  "plain_call (Select (SelArray fs)) = list_all plain fs"
| "plain_call (Select (SelString f)) = plain f"
| "plain_call (Select SelUndefined) = True"
| "plain_call (Select SelOther) = True"
| "plain_call (Where (CObject es) v) = list_all (\<lambda>kv. plain (fst kv)) es"
| "plain_call (Where (CString c) v) = plain c"
| "plain_call (Where CNull v) = True"
| "plain_call (Where COther v) = True"
| "plain_call (OrWhere (CObject es) v) = list_all (\<lambda>kv. plain (fst kv)) es"
| "plain_call (OrWhere (CString c) v) = plain c"
| "plain_call (OrWhere CNull v) = True"
| "plain_call (OrWhere COther v) = True"
| "plain_call (WhereRaw c ps) = (placeholders c = length ps)"
| "plain_call (WhereIn f vs) = plain f"
| "plain_call (WhereNotIn f vs) = plain f"
| "plain_call (WhereBetween f x y) = plain f"
| "plain_call (WhereLike f v) = plain f"
| "plain_call (WhereNull f) = plain f"
| "plain_call (WhereNotNull f) = plain f"
| "plain_call (OrderBy f d) = plain f"
| "plain_call (GroupBy (GroupArray fs)) = list_all plain fs"
| "plain_call (GroupBy (GroupOne f)) = plain f"
| "plain_call (Limit n) = True"
| "plain_call (Offset n) = True"
| "plain_call (Join t c ty) = (plain t \<and> plain c \<and> plain ty)"
| "plain_call (LeftJoin t c) = (plain t \<and> plain c)"
| "plain_call (InnerJoin t c) = (plain t \<and> plain c)"

text \<open>
  The specification's view of a call: the predicate fragments it contributes, each with the
  values bound to its placeholders, in order.
\<close>

definition eq_pair :: "string \<times> jsval \<Rightarrow> string \<times> jsval list" where
  "eq_pair kv =
     (if snd kv = JNull \<or> snd kv = JUndefined then (fst kv @ '' IS NULL'', [])
      else (fst kv @ '' = ?'', [snd kv]))"

fun cond_pairs :: "cond \<Rightarrow> jsval \<Rightarrow> (string \<times> jsval list) list" where
  "cond_pairs (CObject es) v = map eq_pair es"
| "cond_pairs (CString c) v = [eq_pair (c, v)]"
| "cond_pairs CNull v = []"
| "cond_pairs COther v = []"

fun call_pairs :: "builder_call \<Rightarrow> (string \<times> jsval list) list" where
  "call_pairs (Where c v) = cond_pairs c v"
| "call_pairs (OrWhere c v) = cond_pairs c v"
| "call_pairs (WhereRaw c ps) = [(c, ps)]"
| "call_pairs (WhereIn f vs) =
     (case vs of None \<Rightarrow> [] | Some xs \<Rightarrow>
        if xs = [] then [] else [(f @ '' IN ('' @ join '','' (replicate (length xs) ''?'') @ '')'', xs)])"
| "call_pairs (WhereNotIn f vs) =
     (case vs of None \<Rightarrow> [] | Some xs \<Rightarrow>
        if xs = [] then [] else [(f @ '' NOT IN ('' @ join '','' (replicate (length xs) ''?'') @ '')'', xs)])"
| "call_pairs (WhereBetween f x y) =
     (if x = JUndefined \<or> y = JUndefined then [] else [(f @ '' BETWEEN ? AND ?'', [x, y])])"
| "call_pairs (WhereLike f v) =
     (if truthy v then [(f @ '' LIKE ?'', [JStr (''%'' @ to_string v @ ''%'')])] else [])"
| "call_pairs (WhereNull f) = [(f @ '' IS NULL'', [])]"
| "call_pairs (WhereNotNull f) = [(f @ '' IS NOT NULL'', [])]"
| "call_pairs c = []"

section \<open>Execution\<close>

text \<open>
  The driver is the environment. A statement is the SQL text with its parameters; the
  driver's answer to a statement may depend on everything sent before it, so it is a
  function of the list of statements sent so far, the last one being the one answered.
  An answer is a rejection or a result: the rows of a query, or the header of a mutation
  (\<open>insertId\<close>, \<open>affectedRows\<close>, \<open>changedRows\<close>). Console output is not modelled.
\<close>

type_synonym row = "(string \<times> jsval) list"

datatype dbres = Rows "row list" | ResultHeader jsval jsval jsval

type_synonym statement = "string \<times> jsval list"

type_synonym driver = "statement list \<Rightarrow> error + dbres"

definition pool_query :: "driver \<Rightarrow> string \<Rightarrow> jsval list \<Rightarrow> statement list \<Rightarrow> (error + dbres) \<times> statement list" where
  "pool_query drv sql ps sent = (let sent' = sent @ [(sql, ps)] in (drv sent', sent'))"

definition execute :: "driver \<Rightarrow> query_builder \<Rightarrow> statement list \<Rightarrow> (error + dbres) \<times> statement list" where
  "execute drv b sent = (case build b of (sql, ps) \<Rightarrow> pool_query drv sql ps sent)"

definition find_q :: "driver \<Rightarrow> query_builder \<Rightarrow> statement list \<Rightarrow> (error + dbres) \<times> statement list" where
  "find_q drv b sent = execute drv b sent"

text \<open>Property access \<open>row.name\<close>: \<open>undefined\<close> when the row has no such column.\<close>

definition row_get :: "row \<Rightarrow> string \<Rightarrow> jsval" where
  "row_get r k = (case map_of r k of None \<Rightarrow> JUndefined | Some v \<Rightarrow> v)"

text \<open>
  The aggregate terminal calls. Each returns its outcome, the builder as the call leaves
  it, and the statements sent. When \<open>execute\<close> rejects, or when the destructuring
  \<open>const [result] = ...\<close> meets a result that is no array, the function is left by the
  exception and the assignment that restores the column list is not reached. The column
  text of \<open>count\<close> is written as two string literals joined by \<open>@\<close>; it is the one
  string of the source.
\<close>

definition count :: "driver \<Rightarrow> query_builder \<Rightarrow> statement list \<Rightarrow> (error + jsnum) \<times> query_builder \<times> statement list" where
  "count drv b sent =
     (let originalSelect = q_select (b_query b);
          b1 = b\<lparr>b_query := (b_query b)\<lparr>q_select := [''COUNT('' @ ''*) as count'']\<rparr>\<rparr>
      in case execute drv b1 sent of
           (Inl e, sent1) \<Rightarrow> (Inl e, b1, sent1)
         | (Inr (ResultHeader i a c), sent1) \<Rightarrow> (Inl (TypeError ''object is not iterable''), b1, sent1)
         | (Inr (Rows rs), sent1) \<Rightarrow>
             (let b2 = b1\<lparr>b_query := (b_query b1)\<lparr>q_select := originalSelect\<rparr>\<rparr>
              in (Inr (case rs of [] \<Rightarrow> Fin 0 | result # _ \<Rightarrow> parseInt (row_get result ''count'')), b2, sent1)))"

text \<open>
  \<open>sum\<close> and \<open>avg\<close> end in \<open>parseFloat(x) || 0\<close>, a floating-point coercion: it is the
  parameter \<open>coerce\<close>, with \<open>zero\<close> the number 0 returned when there is no row.
\<close>

definition sum_q :: "(jsval \<Rightarrow> 'f) \<Rightarrow> 'f \<Rightarrow> string \<Rightarrow> driver \<Rightarrow> query_builder \<Rightarrow> statement list \<Rightarrow> (error + 'f) \<times> query_builder \<times> statement list" where
  "sum_q coerce zero field drv b sent =
     (let originalSelect = q_select (b_query b);
          b1 = b\<lparr>b_query := (b_query b)\<lparr>q_select := [''SUM('' @ field @ '') as total'']\<rparr>\<rparr>
      in case execute drv b1 sent of
           (Inl e, sent1) \<Rightarrow> (Inl e, b1, sent1)
         | (Inr (ResultHeader i a c), sent1) \<Rightarrow> (Inl (TypeError ''object is not iterable''), b1, sent1)
         | (Inr (Rows rs), sent1) \<Rightarrow>
             (let b2 = b1\<lparr>b_query := (b_query b1)\<lparr>q_select := originalSelect\<rparr>\<rparr>
              in (Inr (case rs of [] \<Rightarrow> zero | result # _ \<Rightarrow> coerce (row_get result ''total'')), b2, sent1)))"

definition avg :: "(jsval \<Rightarrow> 'f) \<Rightarrow> 'f \<Rightarrow> string \<Rightarrow> driver \<Rightarrow> query_builder \<Rightarrow> statement list \<Rightarrow> (error + 'f) \<times> query_builder \<times> statement list" where
  "avg coerce zero field drv b sent =
     (let originalSelect = q_select (b_query b);
          b1 = b\<lparr>b_query := (b_query b)\<lparr>q_select := [''AVG('' @ field @ '') as average'']\<rparr>\<rparr>
      in case execute drv b1 sent of
           (Inl e, sent1) \<Rightarrow> (Inl e, b1, sent1)
         | (Inr (ResultHeader i a c), sent1) \<Rightarrow> (Inl (TypeError ''object is not iterable''), b1, sent1)
         | (Inr (Rows rs), sent1) \<Rightarrow>
             (let b2 = b1\<lparr>b_query := (b_query b1)\<lparr>q_select := originalSelect\<rparr>\<rparr>
              in (Inr (case rs of [] \<Rightarrow> zero | result # _ \<Rightarrow> coerce (row_get result ''average'')), b2, sent1)))"

section \<open>Pagination\<close>

text \<open>The arithmetic of numbers, on the integers and the special values.\<close>

definition js_or :: "jsnum \<Rightarrow> jsnum \<Rightarrow> jsnum" where
  "js_or x d = (if truthy (JNum x) then x else d)"

fun js_max :: "jsnum \<Rightarrow> jsnum \<Rightarrow> jsnum" where
  "js_max NaN y = NaN"
| "js_max x NaN = NaN"
| "js_max PosInf y = PosInf"
| "js_max x PosInf = PosInf"
| "js_max NegInf y = y"
| "js_max x NegInf = x"
| "js_max (Fin a) (Fin b) = Fin (max a b)"

fun js_sub :: "jsnum \<Rightarrow> jsnum \<Rightarrow> jsnum" where
  "js_sub NaN y = NaN"
| "js_sub x NaN = NaN"
| "js_sub (Fin a) (Fin b) = Fin (a - b)"
| "js_sub PosInf PosInf = NaN"
| "js_sub NegInf NegInf = NaN"
| "js_sub PosInf y = PosInf"
| "js_sub NegInf y = NegInf"
| "js_sub x PosInf = NegInf"
| "js_sub x NegInf = PosInf"

fun js_mul :: "jsnum \<Rightarrow> jsnum \<Rightarrow> jsnum" where
  "js_mul NaN y = NaN"
| "js_mul x NaN = NaN"
| "js_mul (Fin a) (Fin b) = Fin (a * b)"
| "js_mul (Fin a) PosInf = (if a = 0 then NaN else if a > 0 then PosInf else NegInf)"
| "js_mul (Fin a) NegInf = (if a = 0 then NaN else if a > 0 then NegInf else PosInf)"
| "js_mul PosInf (Fin b) = (if b = 0 then NaN else if b > 0 then PosInf else NegInf)"
| "js_mul NegInf (Fin b) = (if b = 0 then NaN else if b > 0 then NegInf else PosInf)"
| "js_mul PosInf PosInf = PosInf"
| "js_mul NegInf NegInf = PosInf"
| "js_mul PosInf NegInf = NegInf"
| "js_mul NegInf PosInf = NegInf"

text \<open>\<open>Math.ceil(a / b)\<close>, the quotient taken exactly.\<close>

fun ceil_div :: "jsnum \<Rightarrow> jsnum \<Rightarrow> jsnum" where
  "ceil_div NaN y = NaN"
| "ceil_div x NaN = NaN"
| "ceil_div (Fin a) (Fin b) =
     (if b = 0 then (if a = 0 then NaN else if a > 0 then PosInf else NegInf)
      else Fin (- ((- a) div b)))"
| "ceil_div (Fin a) y = Fin 0"
| "ceil_div PosInf (Fin b) = (if b \<ge> 0 then PosInf else NegInf)"
| "ceil_div NegInf (Fin b) = (if b \<ge> 0 then NegInf else PosInf)"
| "ceil_div x y = NaN"

text \<open>
  The class body of \<open>QueryBuilder\<close> defines \<open>paginate\<close> twice. This is the first
  definition, the clause builder (source lines 152 to 158).
\<close>

definition paginate_sync :: "jsval \<Rightarrow> jsval \<Rightarrow> query_builder \<Rightarrow> query_builder" where
  "paginate_sync page perPage b =
     (let pageNum = js_max (Fin 1) (js_or (parseInt page) (Fin 1));
          limitNum = js_max (Fin 1) (js_or (parseInt perPage) (Fin 10))
      in b\<lparr>b_query := (b_query b)\<lparr>q_limit := Some limitNum,
                                    q_offset := Some (js_mul (js_sub pageNum (Fin 1)) limitNum)\<rparr>\<rparr>)"

text \<open>
  The method definitions of the class body, in source order, each with the line where it
  starts. The definitions are installed on the prototype one after the other, so a later
  definition of a name replaces an earlier one: a name resolves to its last definition.
\<close>

definition QueryBuilder_methods :: "(string \<times> nat) list" where
  "QueryBuilder_methods =
     [(''constructor'', 6), (''reset'', 12), (''select'', 30), (''where'', 39), (''orWhere'', 60),
      (''whereRaw'', 64), (''whereIn'', 70), (''whereNotIn'', 79), (''whereBetween'', 88),
      (''whereLike'', 96), (''whereNull'', 104), (''whereNotNull'', 109), (''orderBy'', 114),
      (''groupBy'', 120), (''limit'', 129), (''offset'', 134), (''join'', 139), (''leftJoin'', 144),
      (''innerJoin'', 148), (''paginate'', 152), (''_buildWhere'', 160), (''_buildJoins'', 165),
      (''build'', 173), (''execute'', 214), (''findOne'', 220), (''find'', 226), (''count'', 230),
      (''sum'', 238), (''avg'', 246), (''paginate'', 254)]"

definition resolve_method :: "string \<Rightarrow> nat option" where
  "resolve_method name = map_of (rev QueryBuilder_methods) name"

record pagination =
  pg_total :: jsnum
  pg_page :: jsnum
  pg_perPage :: jsnum
  pg_totalPages :: jsnum

record page_result =
  pr_data :: dbres
  pr_pagination :: pagination

text \<open>
  The second definition, the asynchronous terminal call (source lines 254 to 267), called
  with numbers. After the count it calls \<open>this.paginate(page, perPage)\<close> and then \<open>.find()\<close>
  on what that call returns. Were \<open>this.paginate\<close> the clause builder of line 152, the
  builder would come back with limit and offset set, and the page would be fetched. When it
  is the asynchronous method itself, the call runs that method up to its first suspension
  (the count sets the column list and sends its statement) and returns a pending Promise,
  which has no \<open>find\<close>: the call of \<open>undefined\<close> throws a TypeError. The model ends at this
  rejection; what the detached inner call does afterwards is not modelled.
\<close>

definition paginate :: "driver \<Rightarrow> jsnum \<Rightarrow> jsnum \<Rightarrow> query_builder \<Rightarrow> statement list \<Rightarrow> (error + page_result) \<times> query_builder \<times> statement list" where
  "paginate drv page perPage b sent =
     (case count drv b sent of
        (Inl e, b1, sent1) \<Rightarrow> (Inl e, b1, sent1)
      | (Inr totalRows, b1, sent1) \<Rightarrow>
          if resolve_method ''paginate'' = Some 152
          then (let b2 = paginate_sync (JNum page) (JNum perPage) b1
                in case find_q drv b2 sent1 of
                     (Inl e, sent2) \<Rightarrow> (Inl e, b2, sent2)
                   | (Inr data, sent2) \<Rightarrow>
                       (Inr \<lparr> pr_data = data,
                              pr_pagination = \<lparr> pg_total = totalRows, pg_page = page, pg_perPage = perPage,
                                                pg_totalPages = ceil_div totalRows perPage \<rparr> \<rparr>, b2, sent2))
          else (let b2 = b1\<lparr>b_query := (b_query b1)\<lparr>q_select := [''COUNT('' @ ''*) as count'']\<rparr>\<rparr>;
                    sent2 = sent1 @ [build b2]
                in (Inl (TypeError ''this.paginate(...).find is not a function''), b2, sent2)))"

section \<open>The ORM class\<close>

record config =
  c_host :: "string option"
  c_user :: "string option"
  c_password :: "string option"
  c_database :: "string option"
  c_port :: "int option"
  c_connectionLimit :: "int option"
  c_timezone :: "string option"
  c_dateStrings :: "bool option"

record pool_options =
  p_host :: string
  p_user :: string
  p_password :: string
  p_database :: "string option"
  p_port :: int
  p_waitForConnections :: bool
  p_connectionLimit :: int
  p_queueLimit :: int
  p_timezone :: string
  p_dateStrings :: bool

text \<open>\<open>x || d\<close> on an optional string and on an optional number.\<close>

definition str_or :: "string option \<Rightarrow> string \<Rightarrow> string" where
  "str_or x d = (case x of None \<Rightarrow> d | Some s \<Rightarrow> if s \<noteq> [] then s else d)"

definition int_or :: "int option \<Rightarrow> int \<Rightarrow> int" where
  "int_or x d = (case x of None \<Rightarrow> d | Some n \<Rightarrow> if n \<noteq> 0 then n else d)"

text \<open>The static state of the class: \<open>ORM.pool\<close>, \<open>null\<close> at first.\<close>

record orm =
  pool :: "pool_options option"

definition orm_start :: orm where
  "orm_start = \<lparr> pool = None \<rparr>"

definition init :: "config \<Rightarrow> orm \<Rightarrow> orm" where
  "init cfg st = st\<lparr>pool := Some
     \<lparr> p_host = str_or (c_host cfg) ''localhost'',
       p_user = str_or (c_user cfg) ''root'',
       p_password = str_or (c_password cfg) [],
       p_database = c_database cfg,
       p_port = int_or (c_port cfg) 3306,
       p_waitForConnections = True,
       p_connectionLimit = int_or (c_connectionLimit cfg) 10,
       p_queueLimit = 0,
       p_timezone = str_or (c_timezone cfg) ''local'',
       p_dateStrings = True \<rparr>\<rparr>"

definition orm_table :: "string \<Rightarrow> orm \<Rightarrow> error + query_builder" where
  "orm_table tableName st =
     (case pool st of
        None \<Rightarrow> Inl NotInitialized
      | Some p \<Rightarrow> Inr (new_builder tableName))"

definition orm_query :: "driver \<Rightarrow> string \<Rightarrow> jsval list \<Rightarrow> orm \<Rightarrow> statement list \<Rightarrow> (error + dbres) \<times> statement list" where
  "orm_query drv sql ps st sent =
     (case pool st of
        None \<Rightarrow> (Inl NotInitialized, sent)
      | Some p \<Rightarrow>
          (case pool_query drv sql ps sent of
             (Inl e, sent1) \<Rightarrow> (Inl e, sent1)
           | (Inr rows, sent1) \<Rightarrow> (Inr rows, sent1)))"

text \<open>
  \<open>insert\<close>, \<open>update\<close> and \<open>delete\<close> evaluate \<open>this.pool.promise()\<close> with no test of
  \<open>this.pool\<close>: on \<open>null\<close> the property access throws a TypeError, whose message has the
  property name between two apostrophes (\<open>CHR 0x27\<close>). The data and condition objects
  are given by their entries.
\<close>

definition null_pool_error :: error where
  "null_pool_error =
     TypeError (''Cannot read properties of null (reading '' @ [CHR 0x27] @ ''promise'' @ [CHR 0x27] @ '')'')"

text \<open>A property read on the result: \<open>undefined\<close> on an array of rows.\<close>

fun res_insertId :: "dbres \<Rightarrow> jsval" where
  "res_insertId (ResultHeader i a c) = i"
| "res_insertId (Rows rs) = JUndefined"

fun res_affectedRows :: "dbres \<Rightarrow> jsval" where
  "res_affectedRows (ResultHeader i a c) = a"
| "res_affectedRows (Rows rs) = JUndefined"

fun res_changedRows :: "dbres \<Rightarrow> jsval" where
  "res_changedRows (ResultHeader i a c) = c"
| "res_changedRows (Rows rs) = JUndefined"

text \<open>
  The object that \<open>insert\<close> returns is given as a map from property names to values, the
  properties of \<open>data\<close> overriding \<open>insertId\<close> and \<open>affectedRows\<close>; the order in which
  its keys enumerate is not modelled.
\<close>

definition orm_insert :: "driver \<Rightarrow> string \<Rightarrow> (string \<times> jsval) list \<Rightarrow> orm \<Rightarrow> statement list \<Rightarrow> (error + (string \<rightharpoonup> jsval)) \<times> statement list" where
  "orm_insert drv tbl data st sent =
     (let keys = map fst data;
          values = map snd data;
          placeholders = join '', '' (map (\<lambda>_. ''?'') keys);
          sql = ''INSERT INTO '' @ tbl @ '' ('' @ join '', '' keys @ '') VALUES ('' @ placeholders @ '')''
      in case pool st of
           None \<Rightarrow> (Inl null_pool_error, sent)
         | Some p \<Rightarrow>
             (case pool_query drv sql values sent of
                (Inl e, sent1) \<Rightarrow> (Inl e, sent1)
              | (Inr result, sent1) \<Rightarrow>
                  (Inr (map_of [(''insertId'', res_insertId result),
                                (''affectedRows'', res_affectedRows result)] ++ map_of data), sent1)))"

record update_result =
  u_affectedRows :: jsval
  u_changedRows :: jsval

definition orm_update :: "driver \<Rightarrow> string \<Rightarrow> (string \<times> jsval) list \<Rightarrow> (string \<times> jsval) list \<Rightarrow> orm \<Rightarrow> statement list \<Rightarrow> (error + update_result) \<times> statement list" where
  "orm_update drv tbl data conditions st sent =
     (let setClause = join '', '' (map (\<lambda>key. key @ '' = ?'') (map fst data));
          whereClause = join '' AND '' (map (\<lambda>key. key @ '' = ?'') (map fst conditions));
          sql = ''UPDATE '' @ tbl @ '' SET '' @ setClause @ '' WHERE '' @ whereClause;
          ps = map snd data @ map snd conditions
      in case pool st of
           None \<Rightarrow> (Inl null_pool_error, sent)
         | Some p \<Rightarrow>
             (case pool_query drv sql ps sent of
                (Inl e, sent1) \<Rightarrow> (Inl e, sent1)
              | (Inr result, sent1) \<Rightarrow>
                  (Inr \<lparr> u_affectedRows = res_affectedRows result,
                         u_changedRows = res_changedRows result \<rparr>, sent1)))"

definition orm_delete :: "driver \<Rightarrow> string \<Rightarrow> (string \<times> jsval) list \<Rightarrow> orm \<Rightarrow> statement list \<Rightarrow> (error + jsval) \<times> statement list" where
  "orm_delete drv tbl conditions st sent =
     (let whereClause = join '' AND '' (map (\<lambda>key. key @ '' = ?'') (map fst conditions));
          sql = ''DELETE FROM '' @ tbl @ '' WHERE '' @ whereClause
      in case pool st of
           None \<Rightarrow> (Inl null_pool_error, sent)
         | Some p \<Rightarrow>
             (case pool_query drv sql (map snd conditions) sent of
                (Inl e, sent1) \<Rightarrow> (Inl e, sent1)
              | (Inr result, sent1) \<Rightarrow> (Inr (res_affectedRows result), sent1)))"

text \<open>\<open>close\<close>: \<open>end_r\<close> is the outcome of \<open>pool.end()\<close>, \<open>None\<close> when it resolves.\<close>

definition close :: "error option \<Rightarrow> orm \<Rightarrow> (error + unit) \<times> orm" where
  "close end_r st =
     (case pool st of
        None \<Rightarrow> (Inr (), st)
      | Some p \<Rightarrow>
          (case end_r of
             Some e \<Rightarrow> (Inl e, st)
           | None \<Rightarrow> (Inr (), st\<lparr>pool := None\<rparr>)))"

section \<open>Transactions\<close>

text \<open>
  What happens on the connection, in order. The environment of one transaction fixes the
  outcome of each asynchronous step (\<open>None\<close>: it resolves): acquiring the connection,
  \<open>beginTransaction\<close>, \<open>commit\<close> and \<open>rollback\<close>, each of which runs at most once; and the
  caller's callback, given by the statements it runs on the connection and by its outcome.
\<close>

datatype event =
    GetConnection
  | BeginTransaction
  | Statement string "jsval list"
  | Commit
  | Rollback
  | Release

record 'a tx_env =
  getConnection_r :: "error option"
  begin_r :: "error option"
  callback_r :: "statement list \<times> (error + 'a)"
  commit_r :: "error option"
  rollback_r :: "error option"

text \<open>The \<open>try\<close> block.\<close>

definition tx_try :: "'a tx_env \<Rightarrow> (error + 'a) \<times> event list" where
  "tx_try env =
     (case begin_r env of
        Some e \<Rightarrow> (Inl e, [BeginTransaction])
      | None \<Rightarrow>
          (case callback_r env of
             (stmts, Inl e) \<Rightarrow> (Inl e, BeginTransaction # map (\<lambda>s. Statement (fst s) (snd s)) stmts)
           | (stmts, Inr result) \<Rightarrow>
               (case commit_r env of
                  Some e \<Rightarrow> (Inl e, BeginTransaction # map (\<lambda>s. Statement (fst s) (snd s)) stmts @ [Commit])
                | None \<Rightarrow> (Inr result, BeginTransaction # map (\<lambda>s. Statement (fst s) (snd s)) stmts @ [Commit]))))"

text \<open>The whole method: the \<open>catch\<close> block rolls back and rethrows, the \<open>finally\<close> block releases.\<close>

definition transaction :: "'a tx_env \<Rightarrow> orm \<Rightarrow> (error + 'a) \<times> event list" where
  "transaction env st =
     (case pool st of
        None \<Rightarrow> (Inl NotInitialized, [])
      | Some p \<Rightarrow>
          (case getConnection_r env of
             Some e \<Rightarrow> (Inl e, [GetConnection])
           | None \<Rightarrow>
               (case tx_try env of
                  (Inr result, tr) \<Rightarrow> (Inr result, GetConnection # tr @ [Release])
                | (Inl error, tr) \<Rightarrow>
                    (case rollback_r env of
                       Some e \<Rightarrow> (Inl e, GetConnection # tr @ [Rollback, Release])
                     | None \<Rightarrow> (Inl error, GetConnection # tr @ [Rollback, Release])))))"

section \<open>Alignment of placeholders and parameters\<close>

text \<open>
  Everything the renderer prints around the predicates is free of placeholders: the table,
  the columns, the joins, the ordering and grouping fields, and the lock clause.
\<close>

definition plain_frame :: "query_builder \<Rightarrow> bool" where
  "plain_frame b =
     (plain (b_table b) \<and>
      list_all plain (q_select (b_query b)) \<and>
      list_all (\<lambda>j. plain (j_type j) \<and> plain (j_table j) \<and> plain (j_condition j)) (q_joins (b_query b)) \<and>
      list_all plain (q_orderBy (b_query b)) \<and>
      list_all plain (q_groupBy (b_query b)) \<and>
      (case q_lock (b_query b) of None \<Rightarrow> True | Some l \<Rightarrow> plain l))"

text \<open>Each fragment has as many placeholders as values bound to it.\<close>

definition balanced :: "(string \<times> jsval list) list \<Rightarrow> bool" where
  "balanced ps = list_all (\<lambda>p. placeholders (fst p) = length (snd p)) ps"

section \<open>Counting placeholders\<close>

lemma placeholders_Nil [simp]: "placeholders [] = 0"
  by (simp add: placeholders_def)

lemma placeholders_Cons [simp]:
  "placeholders (c # s) = (if c = CHR ''?'' then Suc (placeholders s) else placeholders s)"
  by (simp add: placeholders_def)

lemma placeholders_append [simp]: "placeholders (s @ t) = placeholders s + placeholders t"
  by (simp add: placeholders_def)

lemma placeholders_marks: "placeholders (join '','' (replicate n ''?'')) = n"
proof (induction n)
  case 0
  show ?case by simp
next
  case (Suc n)
  show ?case using Suc.IH by (cases n) simp_all
qed

lemma placeholders_join:
  "placeholders (join sep xs) = sum_list (map placeholders xs) + (length xs - 1) * placeholders sep"
  by (induction sep xs rule: join.induct) simp_all

lemma digit_char_plain: "d < 10 \<Longrightarrow> digit_char d \<noteq> CHR ''?''"
proof -
  assume "d < 10"
  then have "d \<in> {0,1,2,3,4,5,6,7,8,9}" by auto
  then show ?thesis by (auto simp: digit_char_def)
qed

lemma placeholders_show_nat [simp]: "placeholders (show_nat n) = 0"
proof (induction n rule: show_nat.induct)
  case (1 n)
  show ?case
  proof (cases "n < 10")
    case True
    then show ?thesis by (simp add: show_nat.simps [of n] digit_char_plain)
  next
    case False
    then show ?thesis using 1 by (simp add: show_nat.simps [of n] digit_char_plain)
  qed
qed

lemma placeholders_zeros: "placeholders (replicate p CHR ''0'') = 0"
  by (induction p) simp_all

lemma placeholders_mantissa:
  "ds \<noteq> [] \<Longrightarrow> placeholders (if tl ds = [] then ds else hd ds # CHR ''.'' # tl ds) = placeholders ds"
  by (cases ds) simp_all

lemma placeholders_show_large [simp]: "placeholders (show_large x) = 0"
proof -
  obtain s0 p0 where f: "shortest_digits x (length (show_nat x) - 1) = (s0, p0)"
    by (cases "shortest_digits x (length (show_nat x) - 1)")
  have ne: "\<And>n. show_nat n \<noteq> []"
  proof -
    fix n show "show_nat n \<noteq> []" by (simp add: show_nat.simps [of n])
  qed
  show ?thesis
    unfolding show_large_def f
    by (simp add: Let_def placeholders_zeros placeholders_mantissa [OF ne])
qed

lemma placeholders_num_to_string [simp]: "placeholders (num_to_string x) = 0"
  by (cases x) (simp_all add: show_int_def)

lemma plain_sum_list: "list_all plain xs \<Longrightarrow> sum_list (map placeholders xs) = 0"
  by (induction xs) (simp_all add: plain_def)

lemma plain_join: "list_all plain xs \<Longrightarrow> plain sep \<Longrightarrow> plain (join sep xs)"
  by (simp add: plain_def placeholders_join plain_sum_list)

lemma where_entry_eq_pair:
  "where_entry q kv =
     q\<lparr>q_where := q_where q @ [fst (eq_pair kv)], q_params := q_params q @ snd (eq_pair kv)\<rparr>"
  by (cases kv) (simp add: where_entry_def eq_pair_def)

lemma foldl_where_entry:
  "foldl where_entry q es =
     q\<lparr>q_where := q_where q @ map (\<lambda>kv. fst (eq_pair kv)) es,
       q_params := q_params q @ concat (map (\<lambda>kv. snd (eq_pair kv)) es)\<rparr>"
proof (induction es arbitrary: q)
  case Nil
  show ?case by simp
next
  case (Cons kv es)
  have "foldl where_entry q (kv # es) = foldl where_entry (where_entry q kv) es" by simp
  also have "\<dots> = (where_entry q kv)\<lparr>q_where := q_where (where_entry q kv) @ map (\<lambda>kv. fst (eq_pair kv)) es,
       q_params := q_params (where_entry q kv) @ concat (map (\<lambda>kv. snd (eq_pair kv)) es)\<rparr>"
    by (rule Cons.IH)
  also have "\<dots> = q\<lparr>q_where := q_where q @ map (\<lambda>kv. fst (eq_pair kv)) (kv # es),
       q_params := q_params q @ concat (map (\<lambda>kv. snd (eq_pair kv)) (kv # es))\<rparr>"
    by (simp add: where_entry_eq_pair)
  finally show ?case .
qed

lemma balanced_eq_pairs: "list_all (\<lambda>kv. plain (fst kv)) es \<Longrightarrow> balanced (map eq_pair es)"
  by (induction es) (simp_all add: balanced_def eq_pair_def plain_def)

lemma balanced_append [simp]: "balanced (ps @ qs) = (balanced ps \<and> balanced qs)"
  by (simp add: balanced_def)

lemma balanced_count:
  "balanced ps \<Longrightarrow> sum_list (map placeholders (map fst ps)) = length (concat (map snd ps))"
  by (induction ps) (simp_all add: balanced_def)

lemma where_b_step:
  assumes "plain_call (Where c v)" and "where_b c v b = Inr b'"
  shows "b' = b\<lparr>b_query := (b_query b)\<lparr>q_where := q_where (b_query b) @ map fst (cond_pairs c v),
                                       q_params := q_params (b_query b) @ concat (map snd (cond_pairs c v))\<rparr>\<rparr>
         \<and> balanced (cond_pairs c v)"
proof (cases c)
  case (CObject es)
  then show ?thesis using assms
    by (auto simp: foldl_where_entry balanced_eq_pairs comp_def)
next
  case (CString s)
  then show ?thesis using assms
    by (auto simp: eq_pair_def balanced_def plain_def)
next
  case CNull
  then show ?thesis using assms by simp
next
  case COther
  then show ?thesis using assms by (auto simp: balanced_def)
qed

lemma call_step:
  assumes "plain_call c" and "call c b = Inr b'" and "plain_frame b"
  shows "plain_frame b'
         \<and> q_where (b_query b') = q_where (b_query b) @ map fst (call_pairs c)
         \<and> q_params (b_query b') = q_params (b_query b) @ concat (map snd (call_pairs c))
         \<and> balanced (call_pairs c)"
proof (cases c)
  case (Select a)
  then show ?thesis using assms by (cases a) (auto simp: plain_frame_def balanced_def plain_def)
next
  case (Where cnd v)
  from where_b_step [of cnd v b b'] Where assms
  show ?thesis by (auto simp: plain_frame_def)
next
  case (OrWhere cnd v)
  have "plain_call (Where cnd v)" using OrWhere assms(1) by (cases cnd) auto
  from where_b_step [OF this, of b b'] OrWhere assms
  show ?thesis by (auto simp: plain_frame_def orWhere_def)
next
  case (WhereRaw s ps)
  then show ?thesis using assms by (auto simp: plain_frame_def balanced_def whereRaw_def)
next
  case (WhereIn f vs)
  then show ?thesis using assms
    by (auto simp: plain_frame_def balanced_def whereIn_def plain_def placeholders_marks map_replicate_const split: option.splits)
next
  case (WhereNotIn f vs)
  then show ?thesis using assms
    by (auto simp: plain_frame_def balanced_def whereNotIn_def plain_def placeholders_marks map_replicate_const split: option.splits)
next
  case (WhereBetween f x y)
  then show ?thesis using assms
    by (auto simp: plain_frame_def balanced_def whereBetween_def plain_def)
next
  case (WhereLike f v)
  then show ?thesis using assms
    by (auto simp: plain_frame_def balanced_def whereLike_def plain_def)
next
  case (WhereNull f)
  then show ?thesis using assms
    by (auto simp: plain_frame_def balanced_def whereNull_def plain_def)
next
  case (WhereNotNull f)
  then show ?thesis using assms
    by (auto simp: plain_frame_def balanced_def whereNotNull_def plain_def)
next
  case (OrderBy f d)
  then show ?thesis using assms
    by (auto simp: plain_frame_def balanced_def orderBy_def plain_def)
next
  case (GroupBy g)
  then show ?thesis using assms
    by (cases g) (auto simp: plain_frame_def balanced_def plain_def)
next
  case (Limit n)
  then show ?thesis using assms by (auto simp: plain_frame_def balanced_def limit_def)
next
  case (Offset n)
  then show ?thesis using assms by (auto simp: plain_frame_def balanced_def offset_def)
next
  case (Join t cnd ty)
  then show ?thesis using assms by (auto simp: plain_frame_def balanced_def join_b_def)
next
  case (LeftJoin t cnd)
  then show ?thesis using assms by (auto simp: plain_frame_def balanced_def join_b_def leftJoin_def plain_def)
next
  case (InnerJoin t cnd)
  then show ?thesis using assms by (auto simp: plain_frame_def balanced_def join_b_def innerJoin_def plain_def)
qed

lemma chain_steps:
  assumes "list_all plain_call cs" and "chain cs b = Inr b'" and "plain_frame b"
  shows "plain_frame b'
         \<and> q_where (b_query b') = q_where (b_query b) @ map fst (concat (map call_pairs cs))
         \<and> q_params (b_query b') = q_params (b_query b) @ concat (map snd (concat (map call_pairs cs)))
         \<and> balanced (concat (map call_pairs cs))"
  using assms
proof (induction cs arbitrary: b)
  case Nil
  then show ?case by (simp add: balanced_def)
next
  case (Cons c cs)
  from Cons.prems obtain b1 where c1: "call c b = Inr b1" and c2: "chain cs b1 = Inr b'"
    by (auto split: sum.splits)
  from Cons.prems have pc: "plain_call c" and pcs: "list_all plain_call cs" by simp_all
  from call_step [OF pc c1 Cons.prems(3)]
  have s1: "plain_frame b1"
    and s2: "q_where (b_query b1) = q_where (b_query b) @ map fst (call_pairs c)"
    and s3: "q_params (b_query b1) = q_params (b_query b) @ concat (map snd (call_pairs c))"
    and s4: "balanced (call_pairs c)" by simp_all
  from Cons.IH [OF pcs c2 s1] s2 s3 s4
  show ?case by simp
qed


lemma plain_joins:
  "list_all (\<lambda>j. plain (j_type j) \<and> plain (j_table j) \<and> plain (j_condition j)) js \<Longrightarrow>
   plain (join '' '' (map (\<lambda>j. j_type j @ '' JOIN '' @ j_table j @ '' ON '' @ j_condition j) js))"
proof -
  assume a: "list_all (\<lambda>j. plain (j_type j) \<and> plain (j_table j) \<and> plain (j_condition j)) js"
  then have "list_all plain (map (\<lambda>j. j_type j @ '' JOIN '' @ j_table j @ '' ON '' @ j_condition j) js)"
    by (induction js) (simp_all add: plain_def)
  then show ?thesis by (rule plain_join) (simp add: plain_def)
qed

lemma build_split:
  "fst (build b) =
     (''SELECT '' @ (if q_distinct (b_query b) then ''DISTINCT '' else []) @ join '', '' (q_select (b_query b))
        @ '' FROM '' @ b_table b @ (if buildJoins b \<noteq> [] then '' '' @ buildJoins b else [])
        @ (if q_where (b_query b) \<noteq> [] then '' WHERE '' else []))
     @ join '' AND '' (q_where (b_query b))
     @ ((if q_groupBy (b_query b) \<noteq> [] then '' GROUP BY '' @ join '', '' (q_groupBy (b_query b)) else [])
        @ (if q_orderBy (b_query b) \<noteq> [] then '' ORDER BY '' @ join '', '' (q_orderBy (b_query b)) else [])
        @ (case q_limit (b_query b) of None \<Rightarrow> []
           | Some l \<Rightarrow> '' LIMIT '' @ num_to_string l @
               (case q_offset (b_query b) of None \<Rightarrow> [] | Some off \<Rightarrow> '' OFFSET '' @ num_to_string off))
        @ (case q_lock (b_query b) of None \<Rightarrow> [] | Some l \<Rightarrow> if l \<noteq> [] then '' '' @ l else []))"
  by (simp add: build_def Let_def buildWhere_def split: option.splits)

lemma build_params: "snd (build b) = q_params (b_query b)"
  by (simp add: build_def Let_def)

lemma build_shape:
  assumes "plain_frame b"
  shows "\<exists>pre post. fst (build b) = pre @ join '' AND '' (q_where (b_query b)) @ post \<and> plain pre \<and> plain post"
proof (intro exI conjI)
  show "fst (build b) =
     (''SELECT '' @ (if q_distinct (b_query b) then ''DISTINCT '' else []) @ join '', '' (q_select (b_query b))
        @ '' FROM '' @ b_table b @ (if buildJoins b \<noteq> [] then '' '' @ buildJoins b else [])
        @ (if q_where (b_query b) \<noteq> [] then '' WHERE '' else []))
     @ join '' AND '' (q_where (b_query b))
     @ ((if q_groupBy (b_query b) \<noteq> [] then '' GROUP BY '' @ join '', '' (q_groupBy (b_query b)) else [])
        @ (if q_orderBy (b_query b) \<noteq> [] then '' ORDER BY '' @ join '', '' (q_orderBy (b_query b)) else [])
        @ (case q_limit (b_query b) of None \<Rightarrow> []
           | Some l \<Rightarrow> '' LIMIT '' @ num_to_string l @
               (case q_offset (b_query b) of None \<Rightarrow> [] | Some off \<Rightarrow> '' OFFSET '' @ num_to_string off))
        @ (case q_lock (b_query b) of None \<Rightarrow> [] | Some l \<Rightarrow> if l \<noteq> [] then '' '' @ l else []))"
    by (rule build_split)
next
  have j: "plain (buildJoins b)"
    using assms plain_joins [of "q_joins (b_query b)"]
    by (simp add: buildJoins_def plain_frame_def) (simp add: plain_def)
  have s: "plain (join '', '' (q_select (b_query b)))"
    using assms by (intro plain_join) (simp_all add: plain_frame_def plain_def)
  show "plain (''SELECT '' @ (if q_distinct (b_query b) then ''DISTINCT '' else []) @ join '', '' (q_select (b_query b))
        @ '' FROM '' @ b_table b @ (if buildJoins b \<noteq> [] then '' '' @ buildJoins b else [])
        @ (if q_where (b_query b) \<noteq> [] then '' WHERE '' else []))"
    using assms j s by (simp add: plain_def plain_frame_def)
next
  have g: "plain (join '', '' (q_groupBy (b_query b)))"
    using assms by (intro plain_join) (simp_all add: plain_frame_def plain_def)
  have o: "plain (join '', '' (q_orderBy (b_query b)))"
    using assms by (intro plain_join) (simp_all add: plain_frame_def plain_def)
  show "plain ((if q_groupBy (b_query b) \<noteq> [] then '' GROUP BY '' @ join '', '' (q_groupBy (b_query b)) else [])
        @ (if q_orderBy (b_query b) \<noteq> [] then '' ORDER BY '' @ join '', '' (q_orderBy (b_query b)) else [])
        @ (case q_limit (b_query b) of None \<Rightarrow> []
           | Some l \<Rightarrow> '' LIMIT '' @ num_to_string l @
               (case q_offset (b_query b) of None \<Rightarrow> [] | Some off \<Rightarrow> '' OFFSET '' @ num_to_string off))
        @ (case q_lock (b_query b) of None \<Rightarrow> [] | Some l \<Rightarrow> if l \<noteq> [] then '' '' @ l else []))"
    using assms g o by (simp add: plain_def plain_frame_def split: option.splits)
qed

lemma build_count:
  assumes "plain_frame b"
  shows "placeholders (fst (build b)) = sum_list (map placeholders (q_where (b_query b)))"
proof -
  from build_shape [OF assms] obtain pre post where
    e: "fst (build b) = pre @ join '' AND '' (q_where (b_query b)) @ post" and "plain pre" and "plain post"
    by blast
  then show ?thesis by (simp add: plain_def placeholders_join)
qed

lemma plain_frame_new: "plain t \<Longrightarrow> plain_frame (new_builder t)"
  by (simp add: plain_frame_def new_builder_def reset_def empty_query_def plain_def)

section \<open>Placeholders and parameters of a rendered statement\<close>

text \<open>
  Without a condition on the calls the rendered text and the parameter list can disagree:
  a raw predicate is appended as it is given, with whatever parameters come with it.
  Here \<open>whereRaw('age > ?', [])\<close> renders one placeholder and no parameter.
\<close>

theorem build_raw_mismatch:
  "chain [WhereRaw ''age > ?'' []] (new_builder ''users'')
     = Inr (whereRaw ''age > ?'' [] (new_builder ''users''))
   \<and> build (whereRaw ''age > ?'' [] (new_builder ''users'')) = (''SELECT * FROM users WHERE age > ?'', [])
   \<and> placeholders (fst (build (whereRaw ''age > ?'' [] (new_builder ''users'')))) = 1
   \<and> length (snd (build (whereRaw ''age > ?'' [] (new_builder ''users'')))) = 0"
  by (simp add: whereRaw_def new_builder_def reset_def empty_query_def build_def buildWhere_def buildJoins_def Let_def)

text \<open>
  C1 (as amended). Take any chain of clause-builder calls on a fresh builder in which no
  table, column, field or join text contains a \<open>?\<close>, and in which every raw predicate is
  given exactly as many parameters as its text has placeholders. Then the text returned by
  \<open>build\<close> has exactly as many placeholders as the returned parameter list has elements.
  They correspond from left to right: the predicate list is the list of the fragments the
  calls contributed, in call order; the parameter list is the concatenation, in the same
  order, of the values bound to each fragment; each fragment has as many placeholders as
  values; and the rendered text is these fragments joined by \<open>AND\<close>, between a prefix and
  a suffix that contain no placeholder.
\<close>

theorem build_aligned:
  assumes "plain t" and "list_all plain_call cs" and "chain cs (new_builder t) = Inr b"
  shows "placeholders (fst (build b)) = length (snd (build b))
       \<and> q_where (b_query b) = map fst (concat (map call_pairs cs))
       \<and> snd (build b) = concat (map snd (concat (map call_pairs cs)))
       \<and> balanced (concat (map call_pairs cs))
       \<and> (\<exists>pre post. fst (build b) = pre @ join '' AND '' (q_where (b_query b)) @ post
                        \<and> plain pre \<and> plain post)"
proof -
  have f0: "plain_frame (new_builder t)" using assms(1) by (rule plain_frame_new)
  have w0: "q_where (b_query (new_builder t)) = []" and p0: "q_params (b_query (new_builder t)) = []"
    by (simp_all add: new_builder_def reset_def empty_query_def)
  from chain_steps [OF assms(2) assms(3) f0] w0 p0
  have fr: "plain_frame b"
    and w: "q_where (b_query b) = map fst (concat (map call_pairs cs))"
    and p: "q_params (b_query b) = concat (map snd (concat (map call_pairs cs)))"
    and bal: "balanced (concat (map call_pairs cs))" by simp_all
  have "placeholders (fst (build b)) = sum_list (map placeholders (q_where (b_query b)))"
    using fr by (rule build_count)
  also have "\<dots> = length (concat (map snd (concat (map call_pairs cs))))"
    unfolding w using bal by (rule balanced_count)
  finally have k: "placeholders (fst (build b)) = length (snd (build b))"
    by (simp add: build_params p)
  from k w p bal build_shape [OF fr] show ?thesis by (simp add: build_params)
qed

text \<open>The theorem at a chain with an equality mapping, a membership test, a raw predicate and a limit.\<close>

theorem build_aligned_witness:
  "plain ''users''
   \<and> list_all plain_call
        [Where (CObject [(''status'', JStr ''active''), (''deleted_at'', JNull)]) JNull,
         WhereIn ''id'' (Some [JNum (Fin 1), JNum (Fin 2)]),
         WhereRaw ''LENGTH(name) > ?'' [JNum (Fin 5)],
         Limit (JNum (Fin 10))]
   \<and> (case chain
        [Where (CObject [(''status'', JStr ''active''), (''deleted_at'', JNull)]) JNull,
         WhereIn ''id'' (Some [JNum (Fin 1), JNum (Fin 2)]),
         WhereRaw ''LENGTH(name) > ?'' [JNum (Fin 5)],
         Limit (JNum (Fin 10))] (new_builder ''users'') of
         Inl e \<Rightarrow> False
       | Inr b \<Rightarrow> placeholders (fst (build b)) = length (snd (build b))
                  \<and> snd (build b) = [JStr ''active'', JNum (Fin 1), JNum (Fin 2), JNum (Fin 5)])"
proof -
  let ?cs = "[Where (CObject [(''status'', JStr ''active''), (''deleted_at'', JNull)]) JNull,
         WhereIn ''id'' (Some [JNum (Fin 1), JNum (Fin 2)]),
         WhereRaw ''LENGTH(name) > ?'' [JNum (Fin 5)],
         Limit (JNum (Fin 10))]"
  have h1: "plain ''users''" by (simp add: plain_def)
  have h2: "list_all plain_call ?cs" by (simp add: plain_def)
  obtain b where h3: "chain ?cs (new_builder ''users'') = Inr b" by simp
  from build_aligned [OF h1 h2 h3]
  have k: "placeholders (fst (build b)) = length (snd (build b))"
    and p: "snd (build b) = concat (map snd (concat (map call_pairs ?cs)))" by simp_all
  have "snd (build b) = [JStr ''active'', JNum (Fin 1), JNum (Fin 2), JNum (Fin 5)]"
    unfolding p by (simp add: eq_pair_def)
  with h1 h2 h3 k show ?thesis by simp
qed

section \<open>Equality predicates\<close>

text \<open>
  C5. For every field name, \<open>where(field, v)\<close> with \<open>v\<close> null or undefined appends the
  fragment \<open>field IS NULL\<close> and no parameter; with any other value it appends \<open>field = ?\<close>
  and the one parameter \<open>v\<close>. The mapping form does the same for every entry of the
  object, in the order of its entries, so that the parameters appended are the values that
  are neither null nor undefined, in order. Nothing else of the builder changes.
\<close>

theorem where_equality:
  "where_b (CString field) v b =
     Inr (if v = JNull \<or> v = JUndefined
          then b\<lparr>b_query := (b_query b)\<lparr>q_where := q_where (b_query b) @ [field @ '' IS NULL'']\<rparr>\<rparr>
          else b\<lparr>b_query := (b_query b)\<lparr>q_where := q_where (b_query b) @ [field @ '' = ?''],
                                         q_params := q_params (b_query b) @ [v]\<rparr>\<rparr>)
   \<and> where_b (CObject es) w b =
     Inr (b\<lparr>b_query := (b_query b)
            \<lparr>q_where := q_where (b_query b) @
                 map (\<lambda>kv. if snd kv = JNull \<or> snd kv = JUndefined then fst kv @ '' IS NULL'' else fst kv @ '' = ?'') es,
             q_params := q_params (b_query b) @
                 filter (\<lambda>x. x \<noteq> JNull \<and> x \<noteq> JUndefined) (map snd es)\<rparr>\<rparr>)"
proof -
  have f: "map (\<lambda>kv. fst (eq_pair kv)) es =
           map (\<lambda>kv. if snd kv = JNull \<or> snd kv = JUndefined then fst kv @ '' IS NULL'' else fst kv @ '' = ?'') es"
    by (simp add: eq_pair_def)
  have p: "concat (map (\<lambda>kv. snd (eq_pair kv)) es) = filter (\<lambda>x. x \<noteq> JNull \<and> x \<noteq> JUndefined) (map snd es)"
    by (induction es) (simp_all add: eq_pair_def)
  show ?thesis by (simp add: foldl_where_entry f p)
qed

section \<open>Membership predicates\<close>

text \<open>
  C6. \<open>whereIn(field, [])\<close> and \<open>whereNotIn(field, [])\<close> return the builder unchanged, so
  the rendered statement is the one rendered without the call. With a list of \<open>n > 0\<close>
  values they append one fragment, \<open>field IN (?,...,?)\<close> or \<open>field NOT IN (?,...,?)\<close>,
  whose list in parentheses has exactly \<open>n\<close> placeholders, and append the \<open>n\<close> values in
  order.
\<close>

theorem whereIn_empty_or_marks:
  "whereIn field (Some []) b = b
   \<and> whereNotIn field (Some []) b = b
   \<and> build (whereIn field (Some []) b) = build b
   \<and> build (whereNotIn field (Some []) b) = build b
   \<and> whereIn field (Some (x # xs)) b =
       b\<lparr>b_query := (b_query b)
          \<lparr>q_where := q_where (b_query b) @ [field @ '' IN ('' @ join '','' (replicate (Suc (length xs)) ''?'') @ '')''],
           q_params := q_params (b_query b) @ x # xs\<rparr>\<rparr>
   \<and> whereNotIn field (Some (x # xs)) b =
       b\<lparr>b_query := (b_query b)
          \<lparr>q_where := q_where (b_query b) @ [field @ '' NOT IN ('' @ join '','' (replicate (Suc (length xs)) ''?'') @ '')''],
           q_params := q_params (b_query b) @ x # xs\<rparr>\<rparr>
   \<and> placeholders (join '','' (replicate (Suc (length xs)) ''?'')) = length (x # xs)
   \<and> placeholders (field @ '' IN ('' @ join '','' (replicate (Suc (length xs)) ''?'') @ '')'')
       = placeholders field + length (x # xs)
   \<and> placeholders (field @ '' NOT IN ('' @ join '','' (replicate (Suc (length xs)) ''?'') @ '')'')
       = placeholders field + length (x # xs)"
proof -
  have m: "placeholders (join '','' (''?'' # replicate (length xs) ''?'')) = Suc (length xs)"
    using placeholders_marks [of "Suc (length xs)"] by simp
  have r: "map (\<lambda>_. ''?'') xs = replicate (length xs) ''?''"
    by (simp add: map_replicate_const)
  show ?thesis
    using m by (simp add: whereIn_def whereNotIn_def r)
qed

section \<open>Pattern predicates\<close>

text \<open>
  C10. \<open>whereLike(field, v)\<close> with a falsy \<open>v\<close> (the empty string, 0, false, null,
  undefined, NaN) returns the builder unchanged; with any other value it appends the
  fragment \<open>field LIKE ?\<close> and the one parameter that is the string form of \<open>v\<close> between
  two \<open>%\<close>.
\<close>

theorem whereLike_falsy_or_wrapped:
  "whereLike field v b =
     (if v = JStr [] \<or> v = JNum (Fin 0) \<or> v = JBool False \<or> v = JNull \<or> v = JUndefined \<or> v = JNum NaN
      then b
      else b\<lparr>b_query := (b_query b)
             \<lparr>q_where := q_where (b_query b) @ [field @ '' LIKE ?''],
              q_params := q_params (b_query b) @ [JStr (''%'' @ to_string v @ ''%'')]\<rparr>\<rparr>)"
proof -
  have "truthy v = (\<not> (v = JStr [] \<or> v = JNum (Fin 0) \<or> v = JBool False \<or> v = JNull \<or> v = JUndefined \<or> v = JNum NaN))"
  proof (cases v)
    case (JNum x)
    then show ?thesis by (cases x) simp_all
  qed simp_all
  then show ?thesis by (simp add: whereLike_def)
qed

section \<open>Limit and offset\<close>

subsection \<open>parseInt on the decimal rendering of an integer\<close>

lemma digit_val_digit_char: "d < 10 \<Longrightarrow> digit_val 10 (digit_char d) = Some d"
proof -
  assume "d < 10"
  then have "d \<in> {0,1,2,3,4,5,6,7,8,9}" by auto
  then show ?thesis by (auto simp: digit_char_def digit_val_def)
qed

lemma parse_digits_append:
  "list_all (\<lambda>c. digit_val r c \<noteq> None) xs \<Longrightarrow>
   parse_digits r acc (xs @ ys) = parse_digits r (parse_digits r acc xs) ys"
  by (induction xs arbitrary: acc) auto

lemma show_nat_digits: "list_all (\<lambda>c. digit_val 10 c \<noteq> None) (show_nat n)"
proof (induction n rule: show_nat.induct)
  case (1 n)
  show ?case
  proof (cases "n < 10")
    case True
    then show ?thesis by (simp add: show_nat.simps [of n] digit_val_digit_char)
  next
    case False
    then show ?thesis using 1 by (simp add: show_nat.simps [of n] digit_val_digit_char)
  qed
qed

lemma parse_show_nat: "parse_digits 10 None (show_nat n) = Some n"
proof (induction n rule: show_nat.induct)
  case (1 n)
  show ?case
  proof (cases "n < 10")
    case True
    then show ?thesis by (simp add: show_nat.simps [of n] digit_val_digit_char)
  next
    case False
    then have ih: "parse_digits 10 None (show_nat (n div 10)) = Some (n div 10)" using 1 by simp
    have "parse_digits 10 None (show_nat n)
            = parse_digits 10 None (show_nat (n div 10) @ [digit_char (n mod 10)])"
      using False by (simp add: show_nat.simps [of n])
    also have "\<dots> = parse_digits 10 (Some (n div 10)) [digit_char (n mod 10)]"
      using parse_digits_append [OF show_nat_digits, of None "n div 10"] ih by simp
    also have "\<dots> = Some n" by (simp add: digit_val_digit_char)
    finally show ?thesis .
  qed
qed

lemma show_nat_nonempty: "show_nat n \<noteq> []"
  by (simp add: show_nat.simps [of n])

lemma digit_code: "digit_val 10 c \<noteq> None \<Longrightarrow> 48 \<le> (of_char c :: nat) \<and> (of_char c :: nat) \<le> 57"
  by (auto simp: digit_val_def Let_def split: if_splits)

lemma digit_not_sign:
  assumes "digit_val 10 c \<noteq> None"
  shows "c \<noteq> CHR ''-'' \<and> c \<noteq> CHR ''+'' \<and> c \<noteq> CHR ''x'' \<and> c \<noteq> CHR ''X''"
  using digit_code [OF assms] by auto

lemma digit_not_space:
  assumes "digit_val 10 c \<noteq> None"
  shows "space_len (c # cs) = 0"
proof -
  have k: "48 \<le> (of_char c :: nat) \<and> (of_char c :: nat) \<le> 57" using assms by (rule digit_code)
  have a: "c \<notin> set [CHR 0x09, CHR 0x0A, CHR 0x0B, CHR 0x0C, CHR 0x0D, CHR 0x20]" using k by auto
  have b: "c \<noteq> CHR 0xC2" using k by auto
  have w: "c \<noteq> CHR 0xE1 \<and> c \<noteq> CHR 0xE2 \<and> c \<noteq> CHR 0xE3 \<and> c \<noteq> CHR 0xEF" using k by auto
  have t: "take 3 (c # cs) \<notin> set wide_spaces"
  proof
    assume "take 3 (c # cs) \<in> set wide_spaces"
    then have "hd (take 3 (c # cs)) \<in> hd ` set wide_spaces" by (rule imageI)
    then show False using w by (simp add: wide_spaces_def)
  qed
  show ?thesis using a b t by (simp add: space_len_def)
qed

lemma minus_not_space: "space_len (CHR ''-'' # cs) = 0"
proof -
  have t: "take 3 (CHR ''-'' # cs) \<notin> set wide_spaces"
  proof
    assume "take 3 (CHR ''-'' # cs) \<in> set wide_spaces"
    then have "hd (take 3 (CHR ''-'' # cs)) \<in> hd ` set wide_spaces" by (rule imageI)
    then show False by (simp add: wide_spaces_def)
  qed
  show ?thesis using t by (simp add: space_len_def)
qed

lemma parseInt_str_unsigned:
  assumes "space_len (c # cs) = 0" and "c \<noteq> CHR ''-''" and "c \<noteq> CHR ''+''"
    and "c = CHR ''0'' \<Longrightarrow> cs = [] \<or> (hd cs \<noteq> CHR ''x'' \<and> hd cs \<noteq> CHR ''X'')"
  shows "parseInt_str (c # cs) = (case parse_digits 10 None (c # cs) of None \<Rightarrow> NaN | Some v \<Rightarrow> to_number v)"
proof -
  have sk: "skip_space (c # cs) = c # cs" using assms(1) by simp
  have un: "unsigned_part (c # cs) = c # cs" unfolding unsigned_part_def Let_def sk using assms(2,3) by simp
  have hex: "(take 2 (c # cs) = ''0x'' \<or> take 2 (c # cs) = ''0X'') = False"
    using assms(4) by (cases cs) auto
  show ?thesis unfolding parseInt_str_def Let_def sk un list.case hex using assms(2)
    by (simp cong: option.case_cong)
qed

lemma parseInt_str_negative:
  assumes "c = CHR ''0'' \<Longrightarrow> cs = [] \<or> (hd cs \<noteq> CHR ''x'' \<and> hd cs \<noteq> CHR ''X'')"
  shows "parseInt_str (CHR ''-'' # c # cs)
           = (case parse_digits 10 None (c # cs) of None \<Rightarrow> NaN | Some v \<Rightarrow> js_negate (to_number v))"
proof -
  have sk: "skip_space (CHR ''-'' # c # cs) = CHR ''-'' # c # cs" using minus_not_space by simp
  have un: "unsigned_part (CHR ''-'' # c # cs) = c # cs" unfolding unsigned_part_def Let_def sk by simp
  have hex: "(take 2 (c # cs) = ''0x'' \<or> take 2 (c # cs) = ''0X'') = False"
    using assms by (cases cs) auto
  show ?thesis unfolding parseInt_str_def Let_def sk un list.case hex
    by (simp cong: option.case_cong)
qed

lemma parseInt_str_digits:
  assumes "list_all (\<lambda>c. digit_val 10 c \<noteq> None) s" and "s \<noteq> []"
  shows "parseInt_str s = (case parse_digits 10 None s of None \<Rightarrow> NaN | Some v \<Rightarrow> to_number v)"
    and "parseInt_str (CHR ''-'' # s)
           = (case parse_digits 10 None s of None \<Rightarrow> NaN | Some v \<Rightarrow> js_negate (to_number v))"
proof -
  from assms obtain c cs where s: "s = c # cs" by (cases s) auto
  with assms have c: "digit_val 10 c \<noteq> None" by simp
  note n = digit_not_sign [OF c]
  have nohex: "cs = [] \<or> (hd cs \<noteq> CHR ''x'' \<and> hd cs \<noteq> CHR ''X'')"
  proof (cases cs)
    case Nil
    then show ?thesis by simp
  next
    case (Cons d ds)
    with assms s have "digit_val 10 d \<noteq> None" by simp
    from digit_not_sign [OF this] show ?thesis using Cons by simp
  qed
  show "parseInt_str s = (case parse_digits 10 None s of None \<Rightarrow> NaN | Some v \<Rightarrow> to_number v)"
    unfolding s using n nohex digit_not_space [OF c, of cs] by (intro parseInt_str_unsigned) simp_all
  show "parseInt_str (CHR ''-'' # s)
          = (case parse_digits 10 None s of None \<Rightarrow> NaN | Some v \<Rightarrow> js_negate (to_number v))"
    unfolding s using nohex by (intro parseInt_str_negative) simp_all
qed

lemma parseInt_integer:
  assumes "\<bar>n\<bar> < 2 ^ 53"
  shows "parseInt (JNum (Fin n)) = Fin n"
proof (cases "n < 0")
  case True
  then have "nat (- n) < 2 ^ 53" using assms by simp
  then have "to_number (nat (- n)) = Fin (- n)" using True by (simp add: to_number_def)
  then show ?thesis
    using True assms parseInt_str_digits(2) [OF show_nat_digits show_nat_nonempty, of "nat (- n)"]
    by (simp add: parseInt_def show_int_def parse_show_nat)
next
  case False
  then have "nat n < 2 ^ 53" using assms by simp
  then have "to_number (nat n) = Fin n" using False by (simp add: to_number_def)
  then show ?thesis
    using False assms parseInt_str_digits(1) [OF show_nat_digits show_nat_nonempty, of "nat n"]
    by (simp add: parseInt_def show_int_def parse_show_nat)
qed

subsection \<open>parseInt on a string with no number\<close>

lemma parse_digits_Some: "parse_digits r (Some a) t \<noteq> None"
  by (induction t arbitrary: a) (auto split: option.splits)

lemma parse_digits_None:
  "(parse_digits r None t = None) = (case t of [] \<Rightarrow> True | d # _ \<Rightarrow> digit_val r d = None)"
  by (cases t) (auto simp: parse_digits_Some split: option.splits)

lemma to_number_not_NaN: "to_number v \<noteq> NaN \<and> js_negate (to_number v) \<noteq> NaN"
  by (simp add: to_number_def Let_def)

lemma parseInt_NaN_iff: "(parseInt (JStr s) = NaN) = (\<not> numeric s)"
proof -
  let ?s2 = "unsigned_part s"
  let ?r = "if take 2 ?s2 = ''0x'' \<or> take 2 ?s2 = ''0X''
            then parse_digits 16 None (drop 2 ?s2) else parse_digits 10 None ?s2"
  have a: "(parseInt (JStr s) = NaN) = (?r = None)"
    using to_number_not_NaN
    by (auto simp: parseInt_def parseInt_str_def Let_def split: option.splits)
  have b: "(?r = None) = (\<not> numeric s)"
    by (auto simp: numeric_def Let_def parse_digits_None split: list.splits)
  from a b show ?thesis by simp
qed

subsection \<open>parseInt beyond the safe integers\<close>

lemma bit_length_bounds: "2 ^ k \<le> n \<Longrightarrow> n < 2 ^ Suc k \<Longrightarrow> bit_length n = Suc k"
proof (induction k arbitrary: n)
  case 0
  then have "n = 1" by simp
  then show ?case by (simp add: bit_length.simps [of "Suc 0"] bit_length.simps [of 0])
next
  case (Suc k)
  have a: "2 ^ k \<le> n div 2" using Suc.prems(1) by simp
  have b: "n div 2 < 2 ^ Suc k" using Suc.prems(2) by simp
  have "0 < (2::nat) ^ Suc k" by simp
  with Suc.prems(1) have "n \<noteq> 0" by linarith
  then have "bit_length n = Suc (bit_length (n div 2))" by (simp add: bit_length.simps [of n])
  with Suc.IH [OF a b] show ?case by simp
qed

lemma show_nat_power: "show_nat (10 ^ k) = CHR ''1'' # replicate k (CHR ''0'')"
proof (induction k)
  case 0
  show ?case by (simp add: show_nat.simps [of "Suc 0"] digit_char_def)
next
  case (Suc k)
  have "show_nat (10 ^ Suc k) = show_nat (10 ^ k) @ [digit_char 0]"
    by (simp add: show_nat.simps [of "10 * 10 ^ k"])
  then show ?case by (simp add: Suc.IH digit_char_def replicate_append_same)
qed

lemma to_number_overflow: "to_number (10 ^ 309) = PosInf"
proof -
  have "bit_length (10 ^ 309) = Suc 1026"
    by (rule bit_length_bounds) simp_all
  then have "bit_length (10 ^ 309) = 1027" by simp
  then show ?thesis by (simp add: to_number_def Let_def)
qed

lemma show_large_1e21: "show_large 1000000000000000000000 = ''1e+21''"
proof -
  have "bit_length 1000000000000000000000 = Suc 69"
    by (rule bit_length_bounds) simp_all
  then have bl: "bit_length 1000000000000000000000 = 70" by simp
  have tn: "to_number 1000000000000000000000 = Fin 1000000000000000000000"
    by (simp add: to_number_def bl Let_def)
  have len: "length (show_nat 1000000000000000000000) = 22"
    by (simp add: show_nat.simps)
  have sd: "shortest_digits 1000000000000000000000 21 = (1, 21)"
    using shortest_digits.simps(2) [of 1000000000000000000000 20] by (simp add: Let_def tn)
  show ?thesis
    by (simp add: show_large_def len sd tn Let_def show_nat.simps digit_char_def)
qed

text \<open>
  Beyond the safe integers the value stored is no longer the integer that was written:
  \<open>1e21\<close> is rendered \<open>1e+21\<close> and read back as 1, and a digit string of 310 digits is
  read as Infinity. White space beyond ASCII is skipped: a no-break space (U+00A0, the
  bytes C2 A0) before \<open>42\<close> gives 42.
\<close>

lemma parseInt_examples:
  "parseInt (JNum (Fin (10 ^ 21))) = Fin 1"
  "parseInt (JStr [CHR 0xC2, CHR 0xA0, CHR ''4'', CHR ''2'']) = Fin 42"
  "parseInt (JStr (CHR ''1'' # replicate 309 (CHR ''0''))) = PosInf"
proof -
  have ts: "to_string (JNum (Fin (10 ^ 21))) = ''1e+21''"
    using show_large_1e21 by simp
  have ps: "parseInt_str ''1e+21'' = Fin 1"
    by (simp add: parseInt_str_def unsigned_part_def space_len_def wide_spaces_def digit_val_def
        to_number_def Let_def)
  show "parseInt (JNum (Fin (10 ^ 21))) = Fin 1"
    unfolding parseInt_def ts by (rule ps)
  have sk: "skip_space [CHR 0xC2, CHR 0xA0, CHR ''4'', CHR ''2''] = ''42''"
    by (simp add: space_len_def wide_spaces_def)
  show "parseInt (JStr [CHR 0xC2, CHR 0xA0, CHR ''4'', CHR ''2'']) = Fin 42"
    unfolding parseInt_def to_string.simps parseInt_str_def unsigned_part_def Let_def sk
    by (simp add: digit_val_def to_number_def)
  have "parseInt_str (show_nat (10 ^ 309)) = PosInf"
    using parseInt_str_digits(1) [OF show_nat_digits show_nat_nonempty, of "10 ^ 309"]
    by (simp only: parse_show_nat option.case to_number_overflow)
  then show "parseInt (JStr (CHR ''1'' # replicate 309 (CHR ''0''))) = PosInf"
    by (simp only: parseInt_def to_string.simps show_nat_power)
qed

subsection \<open>What limit and offset store\<close>

text \<open>
  \<open>limit\<close> and \<open>offset\<close> have no failure branch: \<open>limit(-5)\<close> stores \<open>-5\<close> and renders
  \<open>LIMIT -5\<close>, \<open>limit('abc')\<close> stores NaN and renders \<open>LIMIT NaN\<close>, and \<open>offset\<close> behaves
  alike.
\<close>

theorem limit_offset_store_negative_and_nan:
  "q_limit (b_query (limit (JNum (Fin (- 5))) (new_builder ''users''))) = Some (Fin (- 5))
   \<and> build (limit (JNum (Fin (- 5))) (new_builder ''users'')) = (''SELECT * FROM users LIMIT -5'', [])
   \<and> q_limit (b_query (limit (JStr ''abc'') (new_builder ''users''))) = Some NaN
   \<and> build (limit (JStr ''abc'') (new_builder ''users'')) = (''SELECT * FROM users LIMIT NaN'', [])
   \<and> q_offset (b_query (offset (JNum (Fin (- 5))) (new_builder ''users''))) = Some (Fin (- 5))
   \<and> q_offset (b_query (offset (JStr ''abc'') (new_builder ''users''))) = Some NaN"
proof -
  have m: "parseInt (JNum (Fin (- 5))) = Fin (- 5)" by (rule parseInt_integer) simp
  have n: "parseInt (JStr ''abc'') = NaN"
    by (simp add: parseInt_NaN_iff numeric_def unsigned_part_def space_len_def wide_spaces_def digit_val_def)
  have d: "num_to_string (Fin (- 5)) = ''-5''"
    by (simp add: show_int_def show_nat.simps digit_char_def)
  show ?thesis
    by (simp add: limit_def offset_def m n d new_builder_def reset_def empty_query_def build_def
        buildWhere_def buildJoins_def Let_def del: num_to_string.simps(1))
qed

text \<open>
  C9 (as amended). For every input, \<open>limit(n)\<close> and \<open>offset(n)\<close> store \<open>parseInt(n)\<close> in the
  statement and raise nothing; nothing else of the builder changes. An integer of the safe
  range, \<open>|n| < 2^53\<close>, negative or not, is stored as it is. A string is stored as NaN
  exactly when it is not numeric: when, after the white space and the optional sign, it
  goes on with no digit.
\<close>

theorem limit_offset_parseInt:
  "limit v b = b\<lparr>b_query := (b_query b)\<lparr>q_limit := Some (parseInt v)\<rparr>\<rparr>
   \<and> offset v b = b\<lparr>b_query := (b_query b)\<lparr>q_offset := Some (parseInt v)\<rparr>\<rparr>
   \<and> (\<bar>n\<bar> < 2 ^ 53 \<longrightarrow> parseInt (JNum (Fin n)) = Fin n)
   \<and> (parseInt (JStr s) = NaN) = (\<not> numeric s)"
  using parseInt_integer [of n] parseInt_NaN_iff [of s]
  by (simp add: limit_def offset_def)

text \<open>The theorem at \<open>limit(-5)\<close> and at the string \<open>'abc'\<close>.\<close>

theorem limit_offset_parseInt_witness:
  "\<bar>- 5\<bar> < (2 :: int) ^ 53
   \<and> \<not> numeric ''abc''
   \<and> parseInt (JStr ''abc'') = NaN
   \<and> parseInt (JNum (Fin (- 5))) = Fin (- 5)
   \<and> limit (JNum (Fin (- 5))) (new_builder ''t'') = (new_builder ''t'')\<lparr>b_query := (b_query (new_builder ''t''))\<lparr>q_limit := Some (Fin (- 5))\<rparr>\<rparr>"
proof -
  have h1: "\<bar>- 5\<bar> < (2 :: int) ^ 53" by simp
  have h2: "\<not> numeric ''abc''"
    by (simp add: numeric_def unsigned_part_def space_len_def wide_spaces_def digit_val_def)
  from limit_offset_parseInt [of "JNum (Fin (- 5))" "new_builder ''t''" "- 5" "''abc''"] h1 h2
  show ?thesis by simp
qed

section \<open>Update and delete with no condition\<close>

text \<open>
  With an empty condition mapping and an initialised pool, \<open>update\<close> and \<open>delete\<close> send a
  statement: its text ends in \<open>WHERE\<close> followed by an empty predicate. Here the driver
  answers with a syntax error, which is what the caller receives.
\<close>

theorem update_delete_empty_conditions_sent:
  "orm_update (\<lambda>sent. Inl (DriverError ''ER_PARSE_ERROR'')) ''users'' [(''name'', JStr ''x'')] []
      (init \<lparr> c_host = None, c_user = None, c_password = None, c_database = Some ''shop'',
              c_port = None, c_connectionLimit = None, c_timezone = None, c_dateStrings = None \<rparr> orm_start) []
     = (Inl (DriverError ''ER_PARSE_ERROR''), [(''UPDATE users SET name = ? WHERE '', [JStr ''x''])])
   \<and> orm_delete (\<lambda>sent. Inl (DriverError ''ER_PARSE_ERROR'')) ''users'' []
      (init \<lparr> c_host = None, c_user = None, c_password = None, c_database = Some ''shop'',
              c_port = None, c_connectionLimit = None, c_timezone = None, c_dateStrings = None \<rparr> orm_start) []
     = (Inl (DriverError ''ER_PARSE_ERROR''), [(''DELETE FROM users WHERE '', [])])"
  by (simp add: orm_update_def orm_delete_def init_def orm_start_def pool_query_def Let_def)

text \<open>
  C2 (as amended). For every table and every data mapping, \<open>update\<close> and \<open>delete\<close> called
  with an empty condition mapping on an initialised pool validate nothing: each sends
  exactly one statement to the driver, \<open>UPDATE t SET ... WHERE\<close> with the data values as
  parameters, respectively \<open>DELETE FROM t WHERE\<close> with no parameter, the predicate after
  \<open>WHERE\<close> being empty; and the outcome of the call is the driver's answer to that
  statement, a rejection being passed on as it is.
\<close>

theorem update_delete_no_validation:
  "orm_update drv tbl data [] (init cfg st) sent =
     ((case drv (sent @ [(''UPDATE '' @ tbl @ '' SET '' @ join '', '' (map (\<lambda>key. key @ '' = ?'') (map fst data)) @ '' WHERE '',
                         map snd data)]) of
         Inl e \<Rightarrow> Inl e
       | Inr result \<Rightarrow> Inr \<lparr> u_affectedRows = res_affectedRows result, u_changedRows = res_changedRows result \<rparr>),
      sent @ [(''UPDATE '' @ tbl @ '' SET '' @ join '', '' (map (\<lambda>key. key @ '' = ?'') (map fst data)) @ '' WHERE '',
               map snd data)])
   \<and> orm_delete drv tbl [] (init cfg st) sent =
     ((case drv (sent @ [(''DELETE FROM '' @ tbl @ '' WHERE '', [])]) of
         Inl e \<Rightarrow> Inl e
       | Inr result \<Rightarrow> Inr (res_affectedRows result)),
      sent @ [(''DELETE FROM '' @ tbl @ '' WHERE '', [])])"
  by (simp add: orm_update_def orm_delete_def init_def pool_query_def Let_def split: sum.splits)

section \<open>The transaction lifecycle\<close>




section \<open>Aggregates and the column list\<close>

text \<open>
  When the aggregate returns a value the column list is the one the builder had before the
  call. When it rejects, the aggregate expression is still in place.
\<close>

lemma count_restores_on_success:
  "fst (count drv b sent) = Inr n \<Longrightarrow> fst (snd (count drv b sent)) = b"
  by (auto simp: count_def Let_def split: prod.splits sum.splits dbres.splits)

lemma sum_restores_on_success:
  "fst (sum_q coerce zero field drv b sent) = Inr n \<Longrightarrow> fst (snd (sum_q coerce zero field drv b sent)) = b"
  by (auto simp: sum_q_def Let_def split: prod.splits sum.splits dbres.splits)

lemma avg_restores_on_success:
  "fst (avg coerce zero field drv b sent) = Inr n \<Longrightarrow> fst (snd (avg coerce zero field drv b sent)) = b"
  by (auto simp: avg_def Let_def split: prod.splits sum.splits dbres.splits)

lemma aggregate_failure_leaks:
  "fst (count drv b sent) = Inl e \<Longrightarrow> q_select (b_query (fst (snd (count drv b sent)))) = [''COUNT('' @ ''*) as count'']"
  "fst (sum_q coerce zero field drv b sent) = Inl e \<Longrightarrow>
     q_select (b_query (fst (snd (sum_q coerce zero field drv b sent)))) = [''SUM('' @ field @ '') as total'']"
  "fst (avg coerce zero field drv b sent) = Inl e \<Longrightarrow>
     q_select (b_query (fst (snd (avg coerce zero field drv b sent)))) = [''AVG('' @ field @ '') as average'']"
  by (auto simp: count_def sum_q_def avg_def Let_def split: prod.splits sum.splits dbres.splits)

text \<open>
  C7, at a failing execution. On a builder with the columns \<open>id, name\<close>, \<open>count()\<close> against
  a driver that rejects the statement rejects with the driver's error, and leaves the
  builder with the counting expression as its column list: a \<open>find()\<close> after it renders
  the count query, not \<open>SELECT id, name FROM users\<close>.
\<close>

theorem count_failure_leaks_select:
  "fst (count (\<lambda>sent. Inl (DriverError ''ER_NO_SUCH_TABLE''))
          (select (SelArray [''id'', ''name'']) (new_builder ''users'')) [])
     = Inl (DriverError ''ER_NO_SUCH_TABLE'')
   \<and> q_select (b_query (select (SelArray [''id'', ''name'']) (new_builder ''users''))) = [''id'', ''name'']
   \<and> q_select (b_query (fst (snd (count (\<lambda>sent. Inl (DriverError ''ER_NO_SUCH_TABLE''))
          (select (SelArray [''id'', ''name'']) (new_builder ''users'')) []))))
     = [''COUNT('' @ ''*) as count'']
   \<and> build (fst (snd (count (\<lambda>sent. Inl (DriverError ''ER_NO_SUCH_TABLE''))
          (select (SelArray [''id'', ''name'']) (new_builder ''users'')) [])))
     = (''SELECT COUNT('' @ ''*) as count FROM users'', [])"
  by (simp add: count_def execute_def pool_query_def new_builder_def reset_def empty_query_def
      build_def buildWhere_def buildJoins_def Let_def)

section \<open>Access without a pool\<close>

text \<open>
  Before \<open>init\<close>, and again after \<open>close\<close>, \<open>table\<close>, \<open>query\<close> and \<open>transaction\<close> fail
  with the error that names the missing initialisation, and \<open>close\<close> with no pool changes
  nothing.
\<close>

lemma uninitialized_access:
  "orm_table t orm_start = Inl NotInitialized"
  "orm_query drv sql ps orm_start sent = (Inl NotInitialized, sent)"
  "transaction env orm_start = (Inl NotInitialized, [])"
  "close end_r orm_start = (Inr (), orm_start)"
  "snd (close None (init cfg st)) = orm_start"
  "orm_table t (snd (close None (init cfg st))) = Inl NotInitialized"
  "orm_query drv sql ps (snd (close None (init cfg st))) sent = (Inl NotInitialized, sent)"
  by (simp_all add: orm_table_def orm_query_def transaction_def close_def orm_start_def init_def)

text \<open>
  C8, at \<open>insert\<close>, \<open>update\<close> and \<open>delete\<close>. Before \<open>init\<close>, and after \<open>close\<close>, these
  three fail too, and send nothing, but with the TypeError of a property read on \<open>null\<close>,
  which is not the error that names the missing initialisation.
\<close>

theorem insert_update_delete_without_pool:
  "orm_insert drv ''users'' [(''name'', JStr ''a'')] orm_start sent
     = (Inl (TypeError (''Cannot read properties of null (reading '' @ [CHR 0x27] @ ''promise'' @ [CHR 0x27] @ '')'')), sent)
   \<and> orm_update drv ''users'' [(''name'', JStr ''a'')] [(''id'', JNum (Fin 1))] orm_start sent
     = (Inl (TypeError (''Cannot read properties of null (reading '' @ [CHR 0x27] @ ''promise'' @ [CHR 0x27] @ '')'')), sent)
   \<and> orm_delete drv ''users'' [(''id'', JNum (Fin 1))] orm_start sent
     = (Inl (TypeError (''Cannot read properties of null (reading '' @ [CHR 0x27] @ ''promise'' @ [CHR 0x27] @ '')'')), sent)
   \<and> orm_insert drv ''users'' [(''name'', JStr ''a'')] (snd (close None (init cfg orm_start))) sent
     = (Inl (TypeError (''Cannot read properties of null (reading '' @ [CHR 0x27] @ ''promise'' @ [CHR 0x27] @ '')'')), sent)
   \<and> TypeError (''Cannot read properties of null (reading '' @ [CHR 0x27] @ ''promise'' @ [CHR 0x27] @ '')'') \<noteq> NotInitialized"
  by (simp add: orm_insert_def orm_update_def orm_delete_def orm_start_def close_def init_def
      null_pool_error_def Let_def)

section \<open>The pagination terminal call\<close>

text \<open>
  The name \<open>paginate\<close> resolves to the asynchronous method of line 254, so the terminal call
  calls itself where it means the clause builder: it never returns a page, and it never
  sets limit or offset. The clause builder it shadows would have set them as the formula
  says.
\<close>

lemma resolve_paginate: "resolve_method ''paginate'' = Some 254"
  by (simp add: resolve_method_def QueryBuilder_methods_def)

lemma paginate_never_resolves:
  "\<exists>e. fst (paginate drv page perPage b sent) = Inl e"
  by (auto simp: paginate_def resolve_paginate Let_def split: prod.splits sum.splits)

lemma count_keeps_limit_offset:
  "q_limit (b_query (fst (snd (count drv b sent)))) = q_limit (b_query b)
   \<and> q_offset (b_query (fst (snd (count drv b sent)))) = q_offset (b_query b)"
  by (auto simp: count_def Let_def split: prod.splits sum.splits dbres.splits)

lemma paginate_keeps_limit_offset:
  "q_limit (b_query (fst (snd (paginate drv page perPage b sent)))) = q_limit (b_query b)
   \<and> q_offset (b_query (fst (snd (paginate drv page perPage b sent)))) = q_offset (b_query b)"
proof -
  obtain r b1 sent1 where c: "count drv b sent = (r, b1, sent1)" by (cases "count drv b sent") auto
  with count_keeps_limit_offset [of drv b sent]
  have k: "q_limit (b_query b1) = q_limit (b_query b)" "q_offset (b_query b1) = q_offset (b_query b)" by simp_all
  show ?thesis using c k by (cases r) (simp_all add: paginate_def resolve_paginate Let_def)
qed

lemma paginate_sync_sets:
  assumes "1 \<le> p" and "1 \<le> s" and "p < 2 ^ 53" and "s < 2 ^ 53"
  shows "q_limit (b_query (paginate_sync (JNum (Fin p)) (JNum (Fin s)) b)) = Some (Fin s)
       \<and> q_offset (b_query (paginate_sync (JNum (Fin p)) (JNum (Fin s)) b)) = Some (Fin ((p - 1) * s))"
  using assms by (simp add: paginate_sync_def parseInt_integer js_or_def Let_def max_def)

lemma ceil_div_45_20: "ceil_div (Fin 45) (Fin 20) = Fin 3"
  by simp

text \<open>
  C4, at \<open>paginate(2, 20)\<close> over 45 rows. On a fresh builder, with a driver that answers
  every statement with the one row \<open>count = 45\<close>, the terminal call rejects with a
  TypeError instead of returning \<open>totalPages = 3\<close>; limit and offset are still unset, not
  20 and 20; and the two statements sent are both the count query.
\<close>

theorem paginate_rejects:
  "fst (paginate (\<lambda>sent. Inr (Rows [[(''count'', JNum (Fin 45))]])) (Fin 2) (Fin 20) (new_builder ''users'') [])
     = Inl (TypeError ''this.paginate(...).find is not a function'')
   \<and> q_limit (b_query (fst (snd (paginate (\<lambda>sent. Inr (Rows [[(''count'', JNum (Fin 45))]])) (Fin 2) (Fin 20)
          (new_builder ''users'') [])))) = None
   \<and> q_offset (b_query (fst (snd (paginate (\<lambda>sent. Inr (Rows [[(''count'', JNum (Fin 45))]])) (Fin 2) (Fin 20)
          (new_builder ''users'') [])))) = None
   \<and> snd (snd (paginate (\<lambda>sent. Inr (Rows [[(''count'', JNum (Fin 45))]])) (Fin 2) (Fin 20) (new_builder ''users'') []))
     = [(''SELECT COUNT('' @ ''*) as count FROM users'', []), (''SELECT COUNT('' @ ''*) as count FROM users'', [])]"
  by (simp add: paginate_def resolve_paginate count_def execute_def pool_query_def new_builder_def reset_def
      empty_query_def build_def buildWhere_def buildJoins_def Let_def)

end
